theory Spec2Isabelle
  imports Main "HOL-Library.Word"
begin

unbundle bit_operations_syntax

section \<open>Server-side materialized cursors: sql/sql_cursor.cc\<close>

text \<open>
  The C++ objects are kept in an explicit store, addressed by natural numbers; a pointer
  is an \<open>addr option\<close> with \<open>None\<close> for \<open>nullptr\<close>. Every operation returns an
  option: \<open>None\<close> stands for undefined behaviour of the C++ code (a null pointer or an
  object that is no longer in the store is dereferenced), \<open>Some\<close> carries the returned
  value and the updated objects. A \<open>bool\<close> result follows the source's convention:
  \<open>True\<close> is failure, \<open>False\<close> is success.
\<close>

subsection \<open>Machine types and constants\<close>

text \<open>
  \<open>ulong\<close> is \<open>unsigned long\<close>, 64 bits wide on the LP64 platforms; its arithmetic
  wraps around. The session's \<open>server_status\<close> is a \<open>uint\<close>.
\<close>

type_synonym ulong = "64 word"
type_synonym uint = "32 word"
type_synonym addr = nat
type_synonym row = "int list"

text \<open>
  Modelled from the spec: the headers my_base.h and mysql_com.h are not among the sources.
  The spec names an end-of-data status of the scan handle and two protocol-visible session
  status bits, "cursor exists" and "last row sent"; the numbers are those of the MySQL
  client/server protocol. Only that the end-of-data code is not zero and that the two bits
  differ is ever used.
\<close>

definition HA_ERR_END_OF_FILE :: int where
  "HA_ERR_END_OF_FILE = 137"

definition SERVER_STATUS_CURSOR_EXISTS :: uint where
  "SERVER_STATUS_CURSOR_EXISTS = 64"

definition SERVER_STATUS_LAST_ROW_SENT :: uint where
  "SERVER_STATUS_LAST_ROW_SENT = 128"

subsection \<open>Scan handle (the storage handler of the temporary table)\<close>

text \<open>
  Modelled from the spec: sql/handler.h is not among the sources. The scan handle is the
  sequential row source of section 6 of the spec: init scan, next row (a row, end of data,
  or an error code), end scan. \<open>contents\<close> is what the scan meets position by position: a
  stored row, or the error code the engine reports when it reads there.
\<close>

datatype scan_step = Row row | Scan_error int

record handler =
  contents :: "scan_step list"
  pos :: nat
  inited :: bool
  rnd_init_status :: int
  ignore_dup_key :: bool
  index_inited :: bool

definition ha_rnd_init :: "handler \<Rightarrow> int \<times> handler" where
  "ha_rnd_init h =
     (if rnd_init_status h = 0 then (0, h\<lparr>pos := 0, inited := True\<rparr>)
      else (rnd_init_status h, h\<lparr>inited := False\<rparr>))"

definition ha_rnd_next :: "row \<Rightarrow> handler \<Rightarrow> int \<times> row \<times> handler" where
  "ha_rnd_next buf h =
     (if pos h < length (contents h) then
        (case contents h ! pos h of
           Row r \<Rightarrow> (0, r, h\<lparr>pos := Suc (pos h)\<rparr>)
         | Scan_error e \<Rightarrow> (e, buf, h))
      else (HA_ERR_END_OF_FILE, buf, h))"

definition ha_rnd_end :: "handler \<Rightarrow> handler" where
  "ha_rnd_end h = h\<lparr>inited := False\<rparr>"

definition ha_extra_ignore_dup_key :: "handler \<Rightarrow> handler" where
  "ha_extra_ignore_dup_key h = h\<lparr>ignore_dup_key := True\<rparr>"

definition ha_index_init :: "handler \<Rightarrow> handler" where
  "ha_index_init h = h\<lparr>index_inited := True\<rparr>"

subsection \<open>Temporary table\<close>

text \<open>
  Modelled from the spec: sql/table.h and sql/sql_tmp_table.cc are not among the sources.
  A table object has a storage handler while its storage exists (\<open>has_storage_handler\<close>,
  "the owned table's underlying scan handle exists and has not been released"), the row
  buffer \<open>record[0]\<close>, and the flag read by \<open>is_created\<close>. \<open>instantiate_tmp_table\<close>
  creates the physical storage (it can fail), \<open>close_tmp_table\<close> releases the storage and
  its handler and keeps the table object, \<open>free_tmp_table\<close> destroys the table object.
  \<open>instantiations\<close> counts how often the storage was created.
\<close>

record TABLE =
  file_h :: "handler option"
  record0 :: row
  created :: bool
  hash_field :: bool
  instantiate_status :: bool
  storage :: "scan_step list"
  instantiations :: nat

definition has_storage_handler :: "TABLE \<Rightarrow> bool" where
  "has_storage_handler t = (file_h t \<noteq> None)"

definition is_created :: "TABLE \<Rightarrow> bool" where
  "is_created t = created t"

definition new_handler :: "scan_step list \<Rightarrow> handler" where
  "new_handler rs =
     \<lparr>contents = rs, pos = 0, inited = False, rnd_init_status = 0,
      ignore_dup_key = False, index_inited = False\<rparr>"

definition instantiate_tmp_table :: "TABLE \<Rightarrow> bool \<times> TABLE" where
  "instantiate_tmp_table t =
     (if instantiate_status t then (True, t)
      else (False, t\<lparr>file_h := Some (new_handler (storage t)), created := True,
                      instantiations := Suc (instantiations t)\<rparr>))"

definition close_tmp_table :: "TABLE \<Rightarrow> TABLE" where
  "close_tmp_table t = t\<lparr>file_h := None, created := False\<rparr>"

subsection \<open>Result sink (the caller's Query_result)\<close>

text \<open>
  Modelled from the spec: sql/query_result.h and the protocol classes are not among the
  sources. The sink is the interface of section 6 of the spec; it records every call made
  to it. \<open>prepare_status\<close> is what \<open>prepare\<close> returns, \<open>send_data_script\<close> holds what the
  coming calls of \<open>send_data\<close> return, one entry per call, and once it is used up every
  call succeeds. \<open>send_eof\<close> records the session status it puts on the wire.
\<close>

datatype sink_event =
    Ev_prepare
  | Ev_begin_dataset
  | Ev_send_data row
  | Ev_send_data_failed row
  | Ev_send_eof uint
  | Ev_abort_result_set

record Query_result =
  prepare_status :: bool
  send_data_script :: "bool list"
  events :: "sink_event list"

definition sink_prepare :: "Query_result \<Rightarrow> bool \<times> Query_result" where
  "sink_prepare s = (prepare_status s, s\<lparr>events := events s @ [Ev_prepare]\<rparr>)"

definition sink_begin_dataset :: "Query_result \<Rightarrow> Query_result" where
  "sink_begin_dataset s = s\<lparr>events := events s @ [Ev_begin_dataset]\<rparr>"

definition sink_send_data :: "row \<Rightarrow> Query_result \<Rightarrow> bool \<times> Query_result" where
  "sink_send_data r s =
     (let failed = (take 1 (send_data_script s) = [True])
      in (failed,
          s\<lparr>send_data_script := tl (send_data_script s),
            events := events s @ [if failed then Ev_send_data_failed r else Ev_send_data r]\<rparr>))"

definition sink_send_eof :: "uint \<Rightarrow> Query_result \<Rightarrow> Query_result" where
  "sink_send_eof st s = s\<lparr>events := events s @ [Ev_send_eof st]\<rparr>"

definition sink_abort_result_set :: "Query_result \<Rightarrow> Query_result" where
  "sink_abort_result_set s = s\<lparr>events := events s @ [Ev_abort_result_set]\<rparr>"

subsection \<open>Session, statement and the objects of this file\<close>

text \<open>
  Modelled from the spec: sql_class.h, sql_lex.h, sql_cmd_dml.h and my_alloc.h are not
  among the sources. Of the session (\<open>THD\<close>), the statement (\<open>LEX\<close>) and its command
  the records hold the members this file reads or writes: the protocol status bits, the
  digest and statement-instrumentation pointers, the diagnostics area (\<open>da_errors\<close>,
  filled by \<open>my_error\<close> and \<open>print_error\<close>), the rows written straight to the
  connection (\<open>net\<close>), the active arena and memory root, and the answers of
  \<open>is_dml\<close>, \<open>may_use_cursor\<close>, \<open>is_regular\<close> and \<open>is_prepared\<close>. Where a
  member's name is taken in Isabelle or in another record it carries a prefix:
  \<open>thd->lex\<close> is \<open>thd_lex\<close>, \<open>thd->mem_root\<close> is \<open>thd_mem_root\<close>, \<open>lex->result\<close> is
  \<open>lex_result\<close>, \<open>table->file\<close> is \<open>file_h\<close> and \<open>table->record[0]\<close> is
  \<open>record0\<close>.
\<close>

datatype sql_error = ER_WRONG_ARGUMENTS string | Handler_error int

datatype mem_root_ref = Statement_mem_root | Cursor_mem_root addr

record Sql_cmd =
  is_dml :: bool
  may_use_cursor :: bool
  is_regular :: bool
  is_prepared :: bool
  query_result :: "addr option"
  lazy_result :: bool

record LEX =
  m_sql_cmd :: "Sql_cmd option"
  lex_result :: "addr option"

record THD =
  server_status :: uint
  m_digest :: "addr option"
  m_statement_psi :: "addr option"
  da_errors :: "sql_error list"
  net :: "row list"
  query_arena :: "nat list"
  thd_mem_root :: mem_root_ref
  thd_lex :: LEX

text \<open>class Materialized_cursor; \<open>result\<close> is the member inherited from Server_side_cursor.\<close>

record Materialized_cursor =
  result :: "addr option"
  table :: "addr option"
  item_list :: "string list"
  fetch_limit :: ulong
  fetch_count :: ulong
  is_rnd_inited :: bool
  m_arena :: "nat list"
  mem_root :: nat

text \<open>
  class Query_result_materialize; \<open>qr_table\<close> is the member \<open>table\<close> inherited from
  Query_result_union, \<open>qr_result\<close> the member \<open>result\<close>.
\<close>

record Query_result_materialize =
  qr_result :: "addr option"
  materialized_cursor :: "addr option"
  qr_table :: "addr option"
  qr_aborted :: bool

record world =
  thd :: THD
  tables :: "addr \<rightharpoonup> TABLE"
  sinks :: "addr \<rightharpoonup> Query_result"
  cursors :: "addr \<rightharpoonup> Materialized_cursor"
  mediators :: "addr \<rightharpoonup> Query_result_materialize"
  next_addr :: addr
  mem_root_exhausted :: bool

subsection \<open>Materialized_cursor\<close>

text \<open>\<open>bool is_open() const { return table->has_storage_handler(); }\<close>\<close>

definition is_open :: "Materialized_cursor \<Rightarrow> world \<Rightarrow> bool option" where
  "is_open c w =
     (case table c of None \<Rightarrow> None
      | Some tp \<Rightarrow>
          (case tables w tp of None \<Rightarrow> None
           | Some t \<Rightarrow> Some (has_storage_handler t)))"

text \<open>\<open>thd->swap_query_arena(source, &backup)\<close>: the session takes \<open>source\<close>, the old
  arena is handed back.\<close>

definition swap_query_arena :: "nat list \<Rightarrow> THD \<Rightarrow> nat list \<times> THD" where
  "swap_query_arena source t = (query_arena t, t\<lparr>query_arena := source\<rparr>)"

text \<open>Calls through the \<open>result\<close> pointer of the cursor.\<close>

definition result_prepare :: "Materialized_cursor \<Rightarrow> world \<Rightarrow> (bool \<times> world) option" where
  "result_prepare c w =
     (case result c of None \<Rightarrow> None
      | Some sp \<Rightarrow>
          (case sinks w sp of None \<Rightarrow> None
           | Some s \<Rightarrow>
               Some (fst (sink_prepare s), w\<lparr>sinks := (sinks w)(sp \<mapsto> snd (sink_prepare s))\<rparr>)))"

definition result_begin_dataset :: "Materialized_cursor \<Rightarrow> world \<Rightarrow> world option" where
  "result_begin_dataset c w =
     (case result c of None \<Rightarrow> None
      | Some sp \<Rightarrow>
          (case sinks w sp of None \<Rightarrow> None
           | Some s \<Rightarrow> Some (w\<lparr>sinks := (sinks w)(sp \<mapsto> sink_begin_dataset s)\<rparr>)))"

definition result_send_eof :: "Materialized_cursor \<Rightarrow> world \<Rightarrow> world option" where
  "result_send_eof c w =
     (case result c of None \<Rightarrow> None
      | Some sp \<Rightarrow>
          (case sinks w sp of None \<Rightarrow> None
           | Some s \<Rightarrow>
               Some (w\<lparr>sinks := (sinks w)(sp \<mapsto> sink_send_eof (server_status (thd w)) s)\<rparr>)))"

definition result_abort_result_set :: "Materialized_cursor \<Rightarrow> world \<Rightarrow> world option" where
  "result_abort_result_set c w =
     (case result c of None \<Rightarrow> None
      | Some sp \<Rightarrow>
          (case sinks w sp of None \<Rightarrow> None
           | Some s \<Rightarrow> Some (w\<lparr>sinks := (sinks w)(sp \<mapsto> sink_abort_result_set s)\<rparr>)))"

text \<open>\<open>result->send_data(thd, item_list)\<close>: the items read the row buffer of the table.\<close>

definition result_send_data :: "Materialized_cursor \<Rightarrow> world \<Rightarrow> (bool \<times> world) option" where
  "result_send_data c w =
     (case result c of None \<Rightarrow> None
      | Some sp \<Rightarrow>
          (case sinks w sp of None \<Rightarrow> None
           | Some s \<Rightarrow>
               (case table c of None \<Rightarrow> None
                | Some tp \<Rightarrow>
                    (case tables w tp of None \<Rightarrow> None
                     | Some t \<Rightarrow>
                         Some (fst (sink_send_data (record0 t) s),
                               w\<lparr>sinks := (sinks w)(sp \<mapsto> snd (sink_send_data (record0 t) s))\<rparr>)))))"

text \<open>Calls through \<open>table->file\<close>.\<close>

definition table_ha_rnd_init :: "Materialized_cursor \<Rightarrow> world \<Rightarrow> (int \<times> world) option" where
  "table_ha_rnd_init c w =
     (case table c of None \<Rightarrow> None
      | Some tp \<Rightarrow>
          (case tables w tp of None \<Rightarrow> None
           | Some t \<Rightarrow>
               (case file_h t of None \<Rightarrow> None
                | Some h \<Rightarrow>
                    Some (fst (ha_rnd_init h),
                          w\<lparr>tables := (tables w)(tp \<mapsto> t\<lparr>file_h := Some (snd (ha_rnd_init h))\<rparr>)\<rparr>))))"

definition table_ha_rnd_next :: "Materialized_cursor \<Rightarrow> world \<Rightarrow> (int \<times> world) option" where
  "table_ha_rnd_next c w =
     (case table c of None \<Rightarrow> None
      | Some tp \<Rightarrow>
          (case tables w tp of None \<Rightarrow> None
           | Some t \<Rightarrow>
               (case file_h t of None \<Rightarrow> None
                | Some h \<Rightarrow>
                    (case ha_rnd_next (record0 t) h of
                       (res, buf, h') \<Rightarrow>
                         Some (res,
                               w\<lparr>tables := (tables w)(tp \<mapsto> t\<lparr>file_h := Some h', record0 := buf\<rparr>)\<rparr>)))))"

definition print_error :: "int \<Rightarrow> world \<Rightarrow> world" where
  "print_error res w = w\<lparr>thd := (thd w)\<lparr>da_errors := da_errors (thd w) @ [Handler_error res]\<rparr>\<rparr>"

definition set_server_status :: "uint \<Rightarrow> world \<Rightarrow> world" where
  "set_server_status flag w =
     w\<lparr>thd := (thd w)\<lparr>server_status := server_status (thd w) OR flag\<rparr>\<rparr>"

text \<open>
  \<open>Materialized_cursor::open\<close>, here \<open>cursor_open\<close> because \<open>open\<close> is a keyword of
  Isabelle. The second assignment to \<open>rc\<close> is
  \<open>rc = !rc && table->file->ha_rnd_init(true)\<close>: the scan is only started when
  \<open>prepare\<close> returned false, and \<open>rc\<close> is then whether \<open>ha_rnd_init\<close> returned non-zero.
\<close>

definition cursor_open :: "Materialized_cursor \<Rightarrow> world \<Rightarrow> (bool \<times> Materialized_cursor \<times> world) option" where
  "cursor_open c w =
     (case swap_query_arena (m_arena c) (thd w) of
        (backup_arena, thd1) \<Rightarrow>
          (case result_prepare c (w\<lparr>thd := thd1\<rparr>) of None \<Rightarrow> None
           | Some (rc0, w1) \<Rightarrow>
               (case (if \<not> rc0
                      then map_option (\<lambda>(st, w'). (st \<noteq> 0, w')) (table_ha_rnd_init c w1)
                      else Some (False, w1)) of None \<Rightarrow> None
                | Some (rc, w2) \<Rightarrow>
                    (case swap_query_arena backup_arena (thd w2) of
                       (arena_now, thd3) \<Rightarrow>
                         (let c1 = c\<lparr>is_rnd_inited := \<not> rc, m_arena := arena_now\<rparr>;
                              w3 = w2\<lparr>thd := thd3\<rparr>
                          in (case (if \<not> rc
                                    then result_send_eof c1 (set_server_status SERVER_STATUS_CURSOR_EXISTS w3)
                                    else result_abort_result_set c1 w3) of None \<Rightarrow> None
                              | Some w4 \<Rightarrow>
                                  Some (rc, c1\<lparr>fetch_limit := 0, fetch_count := 0\<rparr>, w4)))))))"

text \<open>\<open>Materialized_cursor::close\<close>.\<close>

definition close :: "Materialized_cursor \<Rightarrow> world \<Rightarrow> (Materialized_cursor \<times> world) option" where
  "close c w =
     (case table c of None \<Rightarrow> None
      | Some tp \<Rightarrow>
          (case tables w tp of None \<Rightarrow> None
           | Some t \<Rightarrow>
               (case (if is_rnd_inited c
                      then map_option (\<lambda>h. t\<lparr>file_h := Some (ha_rnd_end h)\<rparr>) (file_h t)
                      else Some t) of None \<Rightarrow> None
                | Some t1 \<Rightarrow>
                    Some (c\<lparr>is_rnd_inited := False, m_arena := [], item_list := [], mem_root := 0\<rparr>,
                          w\<lparr>tables := (tables w)(tp \<mapsto> close_tmp_table t1)\<rparr>))))"

text \<open>
  The \<open>for\<close> loop of \<open>Materialized_cursor::fetch\<close>, entered after \<open>fetch_limit += num_rows\<close>.
  It ends with the last value of \<open>res\<close> (\<open>Loop_done\<close>: 0 when the condition became false,
  the handler status after \<open>break\<close>), or leaves the function by \<open>return true\<close>
  (\<open>Return_true\<close>) when \<open>send_data\<close> failed.
\<close>

datatype loop_exit = Loop_done int | Return_true

function fetch_loop :: "Materialized_cursor \<Rightarrow> world \<Rightarrow> (loop_exit \<times> Materialized_cursor \<times> world) option" where
  "fetch_loop c w =
     (if fetch_count c < fetch_limit c then
        (case table_ha_rnd_next c w of None \<Rightarrow> None
         | Some (res, w1) \<Rightarrow>
             if res \<noteq> 0 then Some (Loop_done res, c, w1)
             else (case result_send_data c w1 of None \<Rightarrow> None
                   | Some (failed, w2) \<Rightarrow>
                       if failed then Some (Return_true, c, w2)
                       else fetch_loop (c\<lparr>fetch_count := fetch_count c + 1\<rparr>) w2))
      else Some (Loop_done 0, c, w))"
  by pat_completeness auto
termination
proof (relation "measure (\<lambda>(c, w). unat (fetch_limit c) - unat (fetch_count c))")
  show "wf (measure (\<lambda>(c, w). unat (fetch_limit c) - unat (fetch_count c)))"
    by simp
next
  fix c :: Materialized_cursor and w :: world and x2 x y w1 x2a xa ya
  assume lt: "fetch_count c < fetch_limit c"
  have "unat (fetch_count c + 1) = Suc (unat (fetch_count c))"
    using lt by unat_arith
  moreover have "unat (fetch_count c) < unat (fetch_limit c)"
    using lt by (simp add: word_less_nat_alt)
  ultimately show "((c\<lparr>fetch_count := fetch_count c + 1\<rparr>, ya), c, w)
      \<in> measure (\<lambda>(c, w). unat (fetch_limit c) - unat (fetch_count c))"
    by simp
qed

declare fetch_loop.simps [simp del]

text \<open>\<open>Materialized_cursor::fetch\<close>. \<open>THD *thd = table->in_use\<close> reads through \<open>table\<close>.\<close>

definition fetch :: "ulong \<Rightarrow> Materialized_cursor \<Rightarrow> world \<Rightarrow> (bool \<times> Materialized_cursor \<times> world) option" where
  "fetch num_rows c w =
     (case table c of None \<Rightarrow> None
      | Some tp \<Rightarrow>
          (case tables w tp of None \<Rightarrow> None
           | Some t \<Rightarrow>
               (case result_begin_dataset c w of None \<Rightarrow> None
                | Some w0 \<Rightarrow>
                    (case fetch_loop (c\<lparr>fetch_limit := fetch_limit c + num_rows\<rparr>) w0 of None \<Rightarrow> None
                     | Some (Return_true, c1, w1) \<Rightarrow> Some (True, c1, w1)
                     | Some (Loop_done res, c1, w1) \<Rightarrow>
                         if res = 0 then
                           (case result_send_eof c1 (set_server_status SERVER_STATUS_CURSOR_EXISTS w1) of
                              None \<Rightarrow> None
                            | Some w2 \<Rightarrow> Some (False, c1, w2))
                         else if res = HA_ERR_END_OF_FILE then
                           (case result_send_eof c1 (set_server_status SERVER_STATUS_LAST_ROW_SENT w1) of
                              None \<Rightarrow> None
                            | Some w2 \<Rightarrow>
                                (case close c1 w2 of None \<Rightarrow> None
                                 | Some (c3, w3) \<Rightarrow> Some (False, c3, w3)))
                         else
                           (case close c1 (print_error res w1) of None \<Rightarrow> None
                            | Some (c3, w3) \<Rightarrow> Some (True, c3, w3))))))"

subsection \<open>Query_result_materialize\<close>

text \<open>
  \<open>Query_result_materialize::start_execution\<close>. \<open>&materialized_cursor->mem_root\<close> is taken
  through the \<open>materialized_cursor\<close> pointer; the member \<open>mem_root\<close> of the session is
  saved and put back on both ways out.
\<close>

definition start_execution :: "Query_result_materialize \<Rightarrow> world \<Rightarrow> (bool \<times> world) option" where
  "start_execution m w =
     (case qr_table m of None \<Rightarrow> None
      | Some tp \<Rightarrow>
          (case tables w tp of None \<Rightarrow> None
           | Some t \<Rightarrow>
               if is_created t then Some (False, w)
               else
                 (case materialized_cursor m of None \<Rightarrow> None
                  | Some cp \<Rightarrow>
                      (let saved_mem_root = thd_mem_root (thd w);
                           w1 = w\<lparr>thd := (thd w)\<lparr>thd_mem_root := Cursor_mem_root cp\<rparr>\<rparr>
                       in (case instantiate_tmp_table t of
                             (failed, t1) \<Rightarrow>
                               if failed then
                                 Some (True,
                                       w1\<lparr>tables := (tables w1)(tp \<mapsto> t1),
                                          thd := (thd w1)\<lparr>thd_mem_root := saved_mem_root\<rparr>\<rparr>)
                               else
                                 (case file_h t1 of None \<Rightarrow> None
                                  | Some h \<Rightarrow>
                                      (let h1 = ha_extra_ignore_dup_key h;
                                           h2 = (if hash_field t1 then ha_index_init h1 else h1)
                                       in Some (False,
                                                w1\<lparr>tables := (tables w1)(tp \<mapsto> t1\<lparr>file_h := Some h2\<rparr>),
                                                   thd := (thd w1)\<lparr>thd_mem_root := saved_mem_root\<rparr>\<rparr>))))))))"

text \<open>
  \<open>Query_result_materialize::set_result\<close>: the new sink is also handed to the cursor when
  there is one.
\<close>

definition set_result :: "addr \<Rightarrow> addr option \<Rightarrow> world \<Rightarrow> world option" where
  "set_result a result_arg w =
     (case mediators w a of None \<Rightarrow> None
      | Some m \<Rightarrow>
          (let w1 = w\<lparr>mediators := (mediators w)(a \<mapsto> m\<lparr>qr_result := result_arg\<rparr>)\<rparr>
           in (case materialized_cursor m of None \<Rightarrow> Some w1
               | Some cp \<Rightarrow>
                   (case cursors w1 cp of None \<Rightarrow> None
                    | Some c \<Rightarrow> Some (w1\<lparr>cursors := (cursors w1)(cp \<mapsto> c\<lparr>result := result_arg\<rparr>)\<rparr>)))))"

text \<open>
  \<open>new (thd->mem_root) Query_result_materialize(result)\<close>: a null pointer when the memory
  root cannot serve the request (\<open>mem_root_exhausted\<close>), otherwise a new object with the
  constructor's initial values.
\<close>

definition new_Query_result_materialize :: "addr option \<Rightarrow> world \<Rightarrow> addr option \<times> world" where
  "new_Query_result_materialize result_arg w =
     (if mem_root_exhausted w then (None, w)
      else (Some (next_addr w),
            w\<lparr>mediators := (mediators w)(next_addr w \<mapsto>
                  \<lparr>qr_result = result_arg, materialized_cursor = None, qr_table = None,
                   qr_aborted = False\<rparr>),
              next_addr := Suc (next_addr w)\<rparr>))"

text \<open>
  \<open>delete cursor\<close>: the destructor \<open>~Materialized_cursor\<close> frees the table when one is
  bound (\<open>free_tmp_table\<close>, which destroys the table object); the cursor object is gone
  afterwards.
\<close>

definition delete_Materialized_cursor :: "addr \<Rightarrow> world \<Rightarrow> world option" where
  "delete_Materialized_cursor cp w =
     (case cursors w cp of None \<Rightarrow> None
      | Some c \<Rightarrow>
          Some (w\<lparr>tables := (case table c of None \<Rightarrow> tables w | Some tp \<Rightarrow> (tables w)(tp := None)),
                 cursors := (cursors w)(cp := None)\<rparr>))"

subsection \<open>mysql_open_cursor\<close>

definition my_error :: "sql_error \<Rightarrow> world \<Rightarrow> world" where
  "my_error e w = w\<lparr>thd := (thd w)\<lparr>da_errors := da_errors (thd w) @ [e]\<rparr>\<rparr>"

definition set_lex_result :: "addr option \<Rightarrow> world \<Rightarrow> world" where
  "set_lex_result r w = w\<lparr>thd := (thd w)\<lparr>thd_lex := (thd_lex (thd w))\<lparr>lex_result := r\<rparr>\<rparr>\<rparr>"

definition set_sql_cmd :: "Sql_cmd \<Rightarrow> world \<Rightarrow> world" where
  "set_sql_cmd cmd w = w\<lparr>thd := (thd w)\<lparr>thd_lex := (thd_lex (thd w))\<lparr>m_sql_cmd := Some cmd\<rparr>\<rparr>\<rparr>"

definition set_instrumentation :: "addr option \<Rightarrow> addr option \<Rightarrow> world \<Rightarrow> world" where
  "set_instrumentation digest locker w =
     w\<lparr>thd := (thd w)\<lparr>m_digest := digest, m_statement_psi := locker\<rparr>\<rparr>"

text \<open>
  The second half of \<open>mysql_open_cursor\<close>, from \<open>lex->result = result_materialize\<close> to the
  end. \<open>exec\<close> is \<open>mysql_execute_command\<close>, the execution engine, which is not part of
  this file: any function on the whole state, returning the engine's status.
  \<open>result_materialize->abort_result_set(thd)\<close> is a call on the mediator itself.
\<close>

definition execute_and_open ::
  "(world \<Rightarrow> bool \<times> world) \<Rightarrow> addr option \<Rightarrow> addr option \<Rightarrow> world
     \<Rightarrow> (bool \<times> addr option \<times> world) option" where
  "execute_and_open exec pcursor result_materialize w =
     (let w1 = set_lex_result result_materialize w;
          parent_digest = m_digest (thd w1);
          parent_locker = m_statement_psi (thd w1);
          w2 = set_instrumentation None None w1
      in (case exec w2 of
            (rc, w3) \<Rightarrow>
              (let w4 = set_instrumentation parent_digest parent_locker w3
               in if rc then
                    (case result_materialize of None \<Rightarrow> None
                     | Some a \<Rightarrow>
                         (case mediators w4 a of None \<Rightarrow> None
                          | Some m \<Rightarrow>
                              (case materialized_cursor m of None \<Rightarrow> Some (True, pcursor, w4)
                               | Some cp \<Rightarrow>
                                   (case delete_Materialized_cursor cp
                                           (w4\<lparr>mediators := (mediators w4)(a \<mapsto> m\<lparr>qr_aborted := True\<rparr>)\<rparr>) of
                                      None \<Rightarrow> None
                                    | Some w5 \<Rightarrow>
                                        Some (True, pcursor,
                                              w5\<lparr>mediators := (mediators w5)(a \<mapsto>
                                                    m\<lparr>qr_aborted := True, materialized_cursor := None\<rparr>)\<rparr>)))))
                  else
                    (case result_materialize of None \<Rightarrow> Some (False, pcursor, w4)
                     | Some a \<Rightarrow>
                         (case mediators w4 a of None \<Rightarrow> None
                          | Some m \<Rightarrow>
                              (case materialized_cursor m of None \<Rightarrow> Some (False, pcursor, w4)
                               | Some cp \<Rightarrow>
                                   (case cursors w4 cp of None \<Rightarrow> None
                                    | Some c \<Rightarrow>
                                        (case cursor_open c w4 of None \<Rightarrow> None
                                         | Some (open_failed, c', w5) \<Rightarrow>
                                             (let w6 = w5\<lparr>cursors := (cursors w5)(cp \<mapsto> c')\<rparr>
                                              in if open_failed then
                                                   (case delete_Materialized_cursor cp w6 of None \<Rightarrow> None
                                                    | Some w7 \<Rightarrow> Some (True, pcursor, w7))
                                                 else
                                                   Some (False,
                                                         (if pcursor = None then Some cp else pcursor),
                                                         w6))))))))))"

text \<open>
  \<open>mysql_open_cursor(thd, result, pcursor)\<close>; the result carries the returned flag and
  \<open>*pcursor\<close>. The branch for a statement that may not use a cursor or is a regular
  statement is empty in the source: \<open>result_materialize\<close> stays null and the function
  goes on. \<open>Prepared_stmt_arena_holder\<close> switches arenas for the allocation only and
  leaves no trace here.
\<close>

definition mysql_open_cursor ::
  "(world \<Rightarrow> bool \<times> world) \<Rightarrow> addr option \<Rightarrow> addr option \<Rightarrow> world
     \<Rightarrow> (bool \<times> addr option \<times> world) option" where
  "mysql_open_cursor exec result_arg pcursor w =
     (case (case m_sql_cmd (thd_lex (thd w)) of None \<Rightarrow> None
            | Some cmd \<Rightarrow> if is_dml cmd then Some cmd else None) of
        None \<Rightarrow> Some (True, pcursor, my_error (ER_WRONG_ARGUMENTS ''with cursor'') w)
      | Some sql_cmd \<Rightarrow>
          if \<not> may_use_cursor sql_cmd \<or> is_regular sql_cmd then
            execute_and_open exec pcursor None w
          else if \<not> is_prepared sql_cmd then
            (case new_Query_result_materialize result_arg w of
               (None, w1) \<Rightarrow> Some (True, pcursor, w1)
             | (Some a, w1) \<Rightarrow> execute_and_open exec pcursor (Some a) w1)
          else if lex_result (thd_lex (thd w)) = None then
            (case new_Query_result_materialize result_arg w of
               (None, w1) \<Rightarrow> Some (True, pcursor, w1)
             | (Some a, w1) \<Rightarrow>
                 execute_and_open exec pcursor (Some a)
                   (set_sql_cmd (sql_cmd\<lparr>query_result := Some a, lazy_result := True\<rparr>) w1))
          else
            (case query_result sql_cmd of None \<Rightarrow> None
             | Some a \<Rightarrow>
                 (case set_result a result_arg w of None \<Rightarrow> None
                  | Some w1 \<Rightarrow> execute_and_open exec pcursor (Some a) w1)))"

subsection \<open>Observations\<close>

text \<open>
  What can be seen of a cursor in a state: its table and its sink, the part of the table
  the scan has not read yet, whether the handler is scanning and where, the calls the sink
  has recorded, and how many rows it took.
\<close>

definition table_of :: "Materialized_cursor \<Rightarrow> world \<Rightarrow> TABLE option" where
  "table_of c w = (case table c of None \<Rightarrow> None | Some tp \<Rightarrow> tables w tp)"

definition sink_of :: "Materialized_cursor \<Rightarrow> world \<Rightarrow> Query_result option" where
  "sink_of c w = (case result c of None \<Rightarrow> None | Some sp \<Rightarrow> sinks w sp)"

definition scan_rest :: "Materialized_cursor \<Rightarrow> world \<Rightarrow> scan_step list option" where
  "scan_rest c w =
     (case table_of c w of None \<Rightarrow> None
      | Some t \<Rightarrow>
          (case file_h t of None \<Rightarrow> None
           | Some h \<Rightarrow> Some (drop (pos h) (contents h))))"

definition scan_inited :: "Materialized_cursor \<Rightarrow> world \<Rightarrow> bool option" where
  "scan_inited c w =
     (case table_of c w of None \<Rightarrow> None | Some t \<Rightarrow> map_option inited (file_h t))"

definition scan_pos :: "Materialized_cursor \<Rightarrow> world \<Rightarrow> nat option" where
  "scan_pos c w =
     (case table_of c w of None \<Rightarrow> None | Some t \<Rightarrow> map_option pos (file_h t))"

definition sink_events :: "Materialized_cursor \<Rightarrow> world \<Rightarrow> sink_event list option" where
  "sink_events c w = map_option events (sink_of c w)"

fun is_send_data :: "sink_event \<Rightarrow> bool" where
  "is_send_data (Ev_send_data r) = True"
| "is_send_data _ = False"

definition delivered :: "Materialized_cursor \<Rightarrow> world \<Rightarrow> nat" where
  "delivered c w =
     (case sink_of c w of None \<Rightarrow> 0 | Some s \<Rightarrow> length (filter is_send_data (events s)))"

text \<open>State changes that the proofs name: an update of the cursor's sink or table in the
  store, the rows \<open>rs\<close> read from the table and accepted by the sink, a refused row, and
  the members that \<open>close\<close> resets.\<close>

definition with_sink :: "Materialized_cursor \<Rightarrow> (Query_result \<Rightarrow> Query_result) \<Rightarrow> world \<Rightarrow> world" where
  "with_sink c f w =
     (case result c of None \<Rightarrow> w
      | Some sp \<Rightarrow> w\<lparr>sinks := (sinks w)(sp := map_option f (sinks w sp))\<rparr>)"

definition with_table :: "Materialized_cursor \<Rightarrow> (TABLE \<Rightarrow> TABLE) \<Rightarrow> world \<Rightarrow> world" where
  "with_table c f w =
     (case table c of None \<Rightarrow> w
      | Some tp \<Rightarrow> w\<lparr>tables := (tables w)(tp := map_option f (tables w tp))\<rparr>)"

definition read_rows :: "row list \<Rightarrow> TABLE \<Rightarrow> TABLE" where
  "read_rows rs t =
     t\<lparr>file_h := map_option (\<lambda>h. h\<lparr>pos := pos h + length rs\<rparr>) (file_h t),
       record0 := last (record0 t # rs)\<rparr>"

definition sent_rows :: "row list \<Rightarrow> Query_result \<Rightarrow> Query_result" where
  "sent_rows rs s =
     s\<lparr>send_data_script := drop (length rs) (send_data_script s),
       events := events s @ map Ev_send_data rs\<rparr>"

definition deliver :: "Materialized_cursor \<Rightarrow> row list \<Rightarrow> world \<Rightarrow> world" where
  "deliver c rs w = with_sink c (sent_rows rs) (with_table c (read_rows rs) w)"

definition send_failed :: "row \<Rightarrow> Query_result \<Rightarrow> Query_result" where
  "send_failed r s =
     s\<lparr>send_data_script := tl (send_data_script s), events := events s @ [Ev_send_data_failed r]\<rparr>"

definition closed :: "Materialized_cursor \<Rightarrow> Materialized_cursor" where
  "closed c = c\<lparr>is_rnd_inited := False, m_arena := [], item_list := [], mem_root := 0\<rparr>"

text \<open>A caller that issues \<open>fetch(n1)\<close>, \<open>fetch(n2)\<close>, ... and stops at the first failure.\<close>

fun fetch_seq :: "ulong list \<Rightarrow> Materialized_cursor \<Rightarrow> world \<Rightarrow> (bool \<times> Materialized_cursor \<times> world) option" where
  "fetch_seq [] c w = Some (False, c, w)"
| "fetch_seq (n # ns) c w =
     (case fetch n c w of None \<Rightarrow> None
      | Some (rc, c', w') \<Rightarrow> if rc then Some (True, c', w') else fetch_seq ns c' w')"

subsection \<open>Example states\<close>

text \<open>
  An open cursor (object 2 is its table, object 1 its sink) as \<open>open\<close> leaves it,
  over a table holding \<open>steps\<close>, with \<open>p\<close> rows read, \<open>buf\<close> in the row
  buffer, a sink that has recorded \<open>evs\<close> and will answer \<open>script\<close>, and the
  session status \<open>st\<close>.
\<close>

definition example_thd :: THD where
  "example_thd =
     \<lparr>server_status = 0, m_digest = Some 7, m_statement_psi = Some 8, da_errors = [], net = [],
      query_arena = [], thd_mem_root = Statement_mem_root,
      thd_lex = \<lparr>m_sql_cmd = None, lex_result = None\<rparr>\<rparr>"

definition example_cursor :: Materialized_cursor where
  "example_cursor =
     \<lparr>result = Some 1, table = Some 2, item_list = [''c1''], fetch_limit = 0, fetch_count = 0,
      is_rnd_inited = True, m_arena = [], mem_root = 0\<rparr>"

definition example_state ::
  "scan_step list \<Rightarrow> nat \<Rightarrow> row \<Rightarrow> bool list \<Rightarrow> sink_event list \<Rightarrow> uint \<Rightarrow> world" where
  "example_state steps p buf script evs st =
     \<lparr>thd = example_thd\<lparr>server_status := st\<rparr>,
      tables = [2 \<mapsto>
        \<lparr>file_h = Some ((new_handler steps)\<lparr>pos := p, inited := True\<rparr>), record0 = buf,
         created = True, hash_field = False, instantiate_status = False, storage = steps,
         instantiations = 1\<rparr>],
      sinks = [1 \<mapsto> \<lparr>prepare_status = False, send_data_script = script, events = evs\<rparr>],
      cursors = Map.empty, mediators = Map.empty, next_addr = 3, mem_root_exhausted = False\<rparr>"

definition rows3 :: "scan_step list" where
  "rows3 = [Row [1], Row [2], Row [3]]"

definition rows_bad2 :: "scan_step list" where
  "rows_bad2 = [Row [1], Scan_error 1, Row [3]]"

definition rows2 :: "scan_step list" where
  "rows2 = [Row [1], Row [2]]"

text \<open>
  A cursor bound to table 2 and sink 1 before \<open>open\<close>: the table is instantiated, no scan
  is active, the counters still hold the values of an earlier execution. The handler
  answers \<open>ha_rnd_init\<close> with \<open>init_status\<close>, the sink answers \<open>prepare\<close> with
  \<open>prep_status\<close>.
\<close>

definition example_bound_cursor :: Materialized_cursor where
  "example_bound_cursor =
     \<lparr>result = Some 1, table = Some 2, item_list = [''c1''], fetch_limit = 7, fetch_count = 5,
      is_rnd_inited = False, m_arena = [], mem_root = 0\<rparr>"

definition example_bound_state :: "int \<Rightarrow> bool \<Rightarrow> world" where
  "example_bound_state init_status prep_status =
     \<lparr>thd = example_thd,
      tables = [2 \<mapsto>
        \<lparr>file_h = Some ((new_handler rows3)\<lparr>rnd_init_status := init_status\<rparr>), record0 = [],
         created = True, hash_field = False, instantiate_status = False, storage = rows3,
         instantiations = 1\<rparr>],
      sinks = [1 \<mapsto> \<lparr>prepare_status = prep_status, send_data_script = [], events = []\<rparr>],
      cursors = Map.empty, mediators = Map.empty, next_addr = 3, mem_root_exhausted = False\<rparr>"

text \<open>A query plan that calls \<open>start_execution\<close> \<open>k\<close> times in a row, as the branches of
  a set operation do, stopping at the first failure.\<close>

fun start_execution_seq :: "nat \<Rightarrow> Query_result_materialize \<Rightarrow> world \<Rightarrow> (bool \<times> world) option" where
  "start_execution_seq 0 m w = Some (False, w)"
| "start_execution_seq (Suc k) m w =
     (case start_execution m w of None \<Rightarrow> None
      | Some (rc, w') \<Rightarrow> if rc then Some (True, w') else start_execution_seq k m w')"

text \<open>A mediator after \<open>prepare\<close>: its table (object 2) exists but has no storage yet,
  its cursor is object 4.\<close>

definition example_mediator :: Query_result_materialize where
  "example_mediator =
     \<lparr>qr_result = Some 1, materialized_cursor = Some 4, qr_table = Some 2, qr_aborted = False\<rparr>"

definition example_prepared_state :: world where
  "example_prepared_state =
     \<lparr>thd = example_thd,
      tables = [2 \<mapsto>
        \<lparr>file_h = None, record0 = [], created = False, hash_field = True,
         instantiate_status = False, storage = rows3, instantiations = 0\<rparr>],
      sinks = [1 \<mapsto> \<lparr>prepare_status = False, send_data_script = [], events = []\<rparr>],
      cursors = [4 \<mapsto> example_bound_cursor], mediators = [3 \<mapsto> example_mediator],
      next_addr = 5, mem_root_exhausted = False\<rparr>"

text \<open>
  Statements and engines for the examples. \<open>example_statement_state cmd\<close> is a session
  about to open a cursor for the statement \<open>cmd\<close>; table 2 and sink 1 are there.
  \<open>example_select\<close> is a statement of a stored program, not yet prepared, that may use a
  cursor; \<open>example_show\<close> is a data-manipulation statement that may not use one.
  \<open>example_exec_direct\<close> is an engine that writes one row straight to the connection
  and succeeds; \<open>example_exec_fails\<close> fails; \<open>example_exec_materializes\<close> succeeds
  and leaves a cursor (object 4) on table 2 in the mediator that \<open>lex->result\<close> names.
  All three overwrite the digest and the statement locker of the session.
\<close>

definition example_select :: Sql_cmd where
  "example_select =
     \<lparr>is_dml = True, may_use_cursor = True, is_regular = False, is_prepared = False,
      query_result = None, lazy_result = False\<rparr>"

definition example_show :: Sql_cmd where
  "example_show =
     \<lparr>is_dml = True, may_use_cursor = False, is_regular = False, is_prepared = True,
      query_result = None, lazy_result = False\<rparr>"

definition example_set :: Sql_cmd where
  "example_set =
     \<lparr>is_dml = False, may_use_cursor = False, is_regular = True, is_prepared = False,
      query_result = None, lazy_result = False\<rparr>"

definition example_statement_state :: "Sql_cmd \<Rightarrow> world" where
  "example_statement_state cmd =
     (example_bound_state 0 False)
       \<lparr>thd := example_thd\<lparr>thd_lex := \<lparr>m_sql_cmd = Some cmd, lex_result = None\<rparr>\<rparr>\<rparr>"

definition example_exec_direct :: "world \<Rightarrow> bool \<times> world" where
  "example_exec_direct w =
     (False, w\<lparr>thd := (thd w)\<lparr>net := net (thd w) @ [[1]], m_digest := Some 99,
                               m_statement_psi := Some 98\<rparr>\<rparr>)"

definition example_exec_fails :: "world \<Rightarrow> bool \<times> world" where
  "example_exec_fails w =
     (True, w\<lparr>thd := (thd w)\<lparr>m_digest := Some 99, m_statement_psi := Some 98\<rparr>\<rparr>)"

definition example_exec_materializes :: "world \<Rightarrow> bool \<times> world" where
  "example_exec_materializes w =
     (False,
      w\<lparr>thd := (thd w)\<lparr>m_digest := Some 99, m_statement_psi := Some 98\<rparr>,
        cursors := (cursors w)(4 \<mapsto> example_bound_cursor),
        mediators :=
          (case lex_result (thd_lex (thd w)) of None \<Rightarrow> mediators w
           | Some a \<Rightarrow> (mediators w)(a \<mapsto>
               \<lparr>qr_result = Some 1, materialized_cursor = Some 4, qr_table = Some 2,
                qr_aborted = False\<rparr>))\<rparr>)"

section \<open>Properties\<close>

subsection \<open>The fetch loop\<close>

lemma drop_eq_Cons_nth:
  "drop n xs = y # ys \<Longrightarrow> n < length xs \<and> xs ! n = y \<and> drop (Suc n) xs = ys"
  by (metis Cons_nth_drop_Suc drop_eq_Nil2 list.distinct(1) list.inject not_le)

lemma read_rows_Nil: "read_rows [] t = t"
  by (simp add: read_rows_def option.map_ident)

lemma sent_rows_Nil: "sent_rows [] s = s"
  by (simp add: sent_rows_def)

lemma read_rows_Cons: "read_rows rs (read_rows [r] t) = read_rows (r # rs) t"
  by (simp add: read_rows_def option.map_comp comp_def)

lemma sent_rows_Cons: "sent_rows rs (sent_rows [r] s) = sent_rows (r # rs) s"
  by (simp add: sent_rows_def drop_Suc tl_drop)

lemma with_sink_id: "with_sink c (\<lambda>s. s) w = w"
  by (simp add: with_sink_def option.map_ident split: option.splits)

lemma with_table_id: "with_table c (\<lambda>t. t) w = w"
  by (simp add: with_table_def option.map_ident split: option.splits)

lemma with_sink_with_sink: "with_sink c g (with_sink c f w) = with_sink c (\<lambda>s. g (f s)) w"
  by (simp add: with_sink_def option.map_comp comp_def split: option.splits)

lemma with_table_with_table: "with_table c g (with_table c f w) = with_table c (\<lambda>t. g (f t)) w"
  by (simp add: with_table_def option.map_comp comp_def split: option.splits)

lemma with_table_with_sink: "with_table c g (with_sink c f w) = with_sink c f (with_table c g w)"
  by (simp add: with_table_def with_sink_def split: option.splits)

lemma deliver_Nil: "deliver c [] w = w"
proof -
  have "read_rows [] = (\<lambda>t. t)" "sent_rows [] = (\<lambda>s. s)"
    by (simp_all add: fun_eq_iff read_rows_Nil sent_rows_Nil)
  then show ?thesis by (simp add: deliver_def with_sink_id with_table_id)
qed

lemma deliver_Cons: "deliver c rs (deliver c [r] w) = deliver c (r # rs) w"
  by (simp add: deliver_def with_table_with_sink with_sink_with_sink with_table_with_table
      read_rows_Cons sent_rows_Cons)

lemma sink_of_with_sink: "sink_of c (with_sink c f w) = map_option f (sink_of c w)"
  by (simp add: sink_of_def with_sink_def split: option.splits)

lemma sink_of_with_table: "sink_of c (with_table c f w) = sink_of c w"
  by (simp add: sink_of_def with_table_def split: option.splits)

lemma scan_rest_with_sink: "scan_rest c (with_sink c f w) = scan_rest c w"
  by (simp add: scan_rest_def table_of_def with_sink_def split: option.splits)

lemma scan_rest_read_rows:
  "scan_rest c (with_table c (read_rows rs) w) = map_option (drop (length rs)) (scan_rest c w)"
  by (auto simp: scan_rest_def table_of_def with_table_def read_rows_def add.commute split: option.splits)

lemma thd_with [simp]: "thd (with_sink c f w) = thd w" "thd (with_table c g w) = thd w"
  by (simp_all add: with_sink_def with_table_def split: option.splits)

lemma cursor_fields_irrelevant [simp]:
  "scan_rest (c\<lparr>fetch_count := x\<rparr>) w = scan_rest c w"
  "scan_rest (c\<lparr>fetch_limit := y\<rparr>) w = scan_rest c w"
  "sink_of (c\<lparr>fetch_count := x\<rparr>) w = sink_of c w"
  "sink_of (c\<lparr>fetch_limit := y\<rparr>) w = sink_of c w"
  "with_sink (c\<lparr>fetch_count := x\<rparr>) f w = with_sink c f w"
  "with_sink (c\<lparr>fetch_limit := y\<rparr>) f w = with_sink c f w"
  "with_table (c\<lparr>fetch_count := x\<rparr>) g w = with_table c g w"
  "with_table (c\<lparr>fetch_limit := y\<rparr>) g w = with_table c g w"
  "deliver (c\<lparr>fetch_count := x\<rparr>) rs w = deliver c rs w"
  "deliver (c\<lparr>fetch_limit := y\<rparr>) rs w = deliver c rs w"
  by (simp_all add: scan_rest_def table_of_def sink_of_def with_sink_def with_table_def deliver_def)

lemma sink_send_data_ok:
  "take 1 (send_data_script s) \<noteq> [True] \<Longrightarrow>
   sink_send_data r s =
     (False, s\<lparr>send_data_script := tl (send_data_script s), events := events s @ [Ev_send_data r]\<rparr>)"
  by (simp add: sink_send_data_def)

lemma sink_send_data_failed:
  "take 1 (send_data_script s) = [True] \<Longrightarrow>
   sink_send_data r s =
     (True, s\<lparr>send_data_script := tl (send_data_script s), events := events s @ [Ev_send_data_failed r]\<rparr>)"
  by (simp add: sink_send_data_def)

lemma fetch_loop_step:
  assumes rest: "scan_rest c w = Some (Row r # rest)"
    and sink: "sink_of c w = Some s"
    and ok: "take 1 (send_data_script s) \<noteq> [True]"
    and lt: "unat (fetch_count c) < unat (fetch_limit c)"
  shows "fetch_loop c w = fetch_loop (c\<lparr>fetch_count := fetch_count c + 1\<rparr>) (deliver c [r] w)"
proof -
  from rest obtain tp t h where tc: "table c = Some tp" and tw: "tables w tp = Some t"
    and ft: "file_h t = Some h" and dr: "drop (pos h) (contents h) = Row r # rest"
    by (auto simp: scan_rest_def table_of_def split: option.splits)
  from sink obtain sp where rc: "result c = Some sp" and sw: "sinks w sp = Some s"
    by (auto simp: sink_of_def split: option.splits)
  from drop_eq_Cons_nth [OF dr] have inb: "pos h < length (contents h)"
    and nth: "contents h ! pos h = Row r" by simp_all
  have cond: "fetch_count c < fetch_limit c"
    using lt by (simp add: word_less_nat_alt)
  have nxt: "table_ha_rnd_next c w =
      Some (0, w\<lparr>tables := (tables w)(tp \<mapsto> t\<lparr>file_h := Some (h\<lparr>pos := Suc (pos h)\<rparr>), record0 := r\<rparr>)\<rparr>)"
    by (simp add: table_ha_rnd_next_def tc tw ft ha_rnd_next_def inb nth)
  show ?thesis
    apply (subst fetch_loop.simps)
    apply (simp add: cond nxt result_send_data_def rc sw tc sink_send_data_ok [OF ok] deliver_def tw ft
        drop_Suc with_sink_def with_table_def read_rows_def sent_rows_def)
    done
qed

lemma fetch_loop_rows:
  assumes "scan_rest c w = Some (map Row rs @ rest)"
    and "sink_of c w = Some s"
    and "True \<notin> set (take (length rs) (send_data_script s))"
    and "length rs + unat (fetch_count c) \<le> unat (fetch_limit c)"
  shows "fetch_loop c w =
         fetch_loop (c\<lparr>fetch_count := fetch_count c + of_nat (length rs)\<rparr>) (deliver c rs w)"
  using assms
proof (induction rs arbitrary: c w s)
  case Nil
  then show ?case by (simp add: deliver_Nil)
next
  case (Cons r rs)
  let ?c1 = "c\<lparr>fetch_count := fetch_count c + 1\<rparr>"
  let ?w1 = "deliver c [r] w"
  have lt: "unat (fetch_count c) < unat (fetch_limit c)"
    using Cons.prems(4) by simp
  have ok: "take 1 (send_data_script s) \<noteq> [True]"
    using Cons.prems(3) by (cases "send_data_script s") auto
  have step: "fetch_loop c w = fetch_loop ?c1 ?w1"
    using Cons.prems(1,2) ok lt by (intro fetch_loop_step [where rest = "map Row rs @ rest"]) simp_all
  have u: "unat (fetch_count c + 1) = Suc (unat (fetch_count c))"
    using lt by unat_arith
  have r1: "scan_rest ?c1 ?w1 = Some (map Row rs @ rest)"
    using Cons.prems(1) by (simp add: deliver_def scan_rest_with_sink scan_rest_read_rows)
  have s1: "sink_of ?c1 ?w1 = Some (sent_rows [r] s)"
    using Cons.prems(2) by (simp add: deliver_def sink_of_with_sink sink_of_with_table)
  have k1: "True \<notin> set (take (length rs) (send_data_script (sent_rows [r] s)))"
    using Cons.prems(3) by (cases "send_data_script s") (auto simp: sent_rows_def)
  have b1: "length rs + unat (fetch_count ?c1) \<le> unat (fetch_limit ?c1)"
    using Cons.prems(4) u by simp
  from Cons.IH [OF r1 s1 k1 b1] step show ?case
    by (simp add: deliver_Cons add.assoc)
qed

lemma scan_rest_SomeD:
  "scan_rest c w = Some xs \<Longrightarrow>
   \<exists>tp t h. table c = Some tp \<and> tables w tp = Some t \<and> file_h t = Some h \<and>
     drop (pos h) (contents h) = xs"
  by (auto simp: scan_rest_def table_of_def split: option.splits)

lemma sink_of_SomeD:
  "sink_of c w = Some s \<Longrightarrow> \<exists>sp. result c = Some sp \<and> sinks w sp = Some s"
  by (auto simp: sink_of_def split: option.splits)

lemma result_begin_dataset_eq:
  "sink_of c w = Some s \<Longrightarrow> result_begin_dataset c w = Some (with_sink c sink_begin_dataset w)"
  by (auto simp: sink_of_def result_begin_dataset_def with_sink_def split: option.splits)

lemma result_send_eof_eq:
  "sink_of c w = Some s \<Longrightarrow>
   result_send_eof c w = Some (with_sink c (sink_send_eof (server_status (thd w))) w)"
  by (auto simp: sink_of_def result_send_eof_def with_sink_def split: option.splits)

lemma close_eq:
  "scan_rest c w = Some xs \<Longrightarrow> close c w = Some (closed c, with_table c close_tmp_table w)"
  by (auto simp: scan_rest_def table_of_def close_def closed_def with_table_def close_tmp_table_def
      split: option.splits)

lemma set_server_status_obs [simp]:
  "scan_rest c (set_server_status f w) = scan_rest c w"
  "sink_of c (set_server_status f w) = sink_of c w"
  "server_status (thd (set_server_status f w)) = server_status (thd w) OR f"
  "da_errors (thd (set_server_status f w)) = da_errors (thd w)"
  by (simp_all add: set_server_status_def scan_rest_def table_of_def sink_of_def split: option.splits)

lemma print_error_obs [simp]:
  "scan_rest c (print_error e w) = scan_rest c w"
  "sink_of c (print_error e w) = sink_of c w"
  "server_status (thd (print_error e w)) = server_status (thd w)"
  "da_errors (thd (print_error e w)) = da_errors (thd w) @ [Handler_error e]"
  by (simp_all add: print_error_def scan_rest_def table_of_def sink_of_def split: option.splits)

lemma scan_rest_deliver:
  "scan_rest c (deliver c rs w) = map_option (drop (length rs)) (scan_rest c w)"
  by (simp add: deliver_def scan_rest_with_sink scan_rest_read_rows)

lemma sink_of_deliver: "sink_of c (deliver c rs w) = map_option (sent_rows rs) (sink_of c w)"
  by (simp add: deliver_def sink_of_with_sink sink_of_with_table)

lemma thd_deliver [simp]: "thd (deliver c rs w) = thd w"
  by (simp add: deliver_def)

lemma fetch_loop_limit:
  "\<not> fetch_count c < fetch_limit c \<Longrightarrow> fetch_loop c w = Some (Loop_done 0, c, w)"
  by (subst fetch_loop.simps) simp

lemma table_ha_rnd_next_eof:
  "scan_rest c w = Some [] \<Longrightarrow> table_ha_rnd_next c w = Some (HA_ERR_END_OF_FILE, w)"
  by (auto simp: scan_rest_def table_of_def table_ha_rnd_next_def ha_rnd_next_def map_upd_triv
      split: option.splits)

lemma table_ha_rnd_next_error:
  "scan_rest c w = Some (Scan_error e # rest) \<Longrightarrow> table_ha_rnd_next c w = Some (e, w)"
  by (auto simp: scan_rest_def table_of_def table_ha_rnd_next_def ha_rnd_next_def map_upd_triv
      dest!: drop_eq_Cons_nth split: option.splits)

lemma table_ha_rnd_next_row:
  "scan_rest c w = Some (Row r # rest) \<Longrightarrow>
   table_ha_rnd_next c w = Some (0, with_table c (read_rows [r]) w)"
  by (auto simp: scan_rest_def table_of_def table_ha_rnd_next_def ha_rnd_next_def with_table_def read_rows_def
      dest!: drop_eq_Cons_nth split: option.splits)

lemma fetch_loop_eof:
  "scan_rest c w = Some [] \<Longrightarrow> unat (fetch_count c) < unat (fetch_limit c) \<Longrightarrow>
   fetch_loop c w = Some (Loop_done HA_ERR_END_OF_FILE, c, w)"
  by (subst fetch_loop.simps)
     (simp add: word_less_nat_alt table_ha_rnd_next_eof HA_ERR_END_OF_FILE_def)

lemma fetch_loop_error:
  "scan_rest c w = Some (Scan_error e # rest) \<Longrightarrow> e \<noteq> 0 \<Longrightarrow>
   unat (fetch_count c) < unat (fetch_limit c) \<Longrightarrow>
   fetch_loop c w = Some (Loop_done e, c, w)"
  by (subst fetch_loop.simps) (simp add: word_less_nat_alt table_ha_rnd_next_error)

lemma result_send_data_failed:
  "scan_rest c w = Some xs \<Longrightarrow> sink_of c w = Some s \<Longrightarrow>
   take 1 (send_data_script s) = [True] \<Longrightarrow>
   result_send_data c (with_table c (read_rows [r]) w) =
     Some (True, with_sink c (send_failed r) (with_table c (read_rows [r]) w))"
  by (auto simp: scan_rest_def table_of_def sink_of_def result_send_data_def with_table_def with_sink_def
      read_rows_def send_failed_def sink_send_data_failed split: option.splits)

lemma fetch_loop_send_failed:
  "scan_rest c w = Some (Row r # rest) \<Longrightarrow> sink_of c w = Some s \<Longrightarrow>
   take 1 (send_data_script s) = [True] \<Longrightarrow>
   unat (fetch_count c) < unat (fetch_limit c) \<Longrightarrow>
   fetch_loop c w =
     Some (Return_true, c, with_sink c (send_failed r) (with_table c (read_rows [r]) w))"
  by (subst fetch_loop.simps)
     (simp add: word_less_nat_alt table_ha_rnd_next_row result_send_data_failed)

lemma unat_add_of_nat:
  fixes x y :: ulong
  assumes "k + unat x \<le> unat y"
  shows "unat (x + of_nat k) = unat x + k"
proof -
  have "unat y < 2 ^ 64" using unsigned_less [of y] by simp
  with assms have "unat x + k < 2 ^ 64" by simp
  then show ?thesis
    by (simp add: unat_word_ariths unat_of_nat)
qed

lemma fetch_start:
  assumes "scan_rest c w = Some xs" and "sink_of c w = Some s"
  shows "fetch n c w =
     (case fetch_loop (c\<lparr>fetch_limit := fetch_limit c + n\<rparr>) (with_sink c sink_begin_dataset w) of
        None \<Rightarrow> None
      | Some (Return_true, c1, w1) \<Rightarrow> Some (True, c1, w1)
      | Some (Loop_done res, c1, w1) \<Rightarrow>
          if res = 0 then
            (case result_send_eof c1 (set_server_status SERVER_STATUS_CURSOR_EXISTS w1) of
               None \<Rightarrow> None
             | Some w2 \<Rightarrow> Some (False, c1, w2))
          else if res = HA_ERR_END_OF_FILE then
            (case result_send_eof c1 (set_server_status SERVER_STATUS_LAST_ROW_SENT w1) of
               None \<Rightarrow> None
             | Some w2 \<Rightarrow>
                 (case close c1 w2 of None \<Rightarrow> None
                  | Some (c3, w3) \<Rightarrow> Some (False, c3, w3)))
          else
            (case close c1 (print_error res w1) of None \<Rightarrow> None
             | Some (c3, w3) \<Rightarrow> Some (True, c3, w3)))"
proof -
  from scan_rest_SomeD [OF assms(1)] obtain tp t where "table c = Some tp" "tables w tp = Some t"
    by blast
  then show ?thesis
    by (simp add: fetch_def result_begin_dataset_eq [OF assms(2)])
qed

lemma fetch_loop_deliver:
  assumes rest: "scan_rest c w = Some (map Row rs @ rest)"
    and sink: "sink_of c w = Some s"
    and ok: "True \<notin> set (take (length rs) (send_data_script s))"
    and le: "length rs + unat (fetch_count c) \<le> unat (fetch_limit c + n)"
  shows "fetch_loop (c\<lparr>fetch_limit := fetch_limit c + n\<rparr>) (with_sink c sink_begin_dataset w) =
         fetch_loop (c\<lparr>fetch_limit := fetch_limit c + n,
                       fetch_count := fetch_count c + of_nat (length rs)\<rparr>)
           (deliver c rs (with_sink c sink_begin_dataset w))"
proof -
  let ?c0 = "c\<lparr>fetch_limit := fetch_limit c + n\<rparr>"
  let ?w0 = "with_sink c sink_begin_dataset w"
  have "fetch_loop ?c0 ?w0 =
        fetch_loop (?c0\<lparr>fetch_count := fetch_count ?c0 + of_nat (length rs)\<rparr>) (deliver ?c0 rs ?w0)"
  proof (rule fetch_loop_rows)
    show "scan_rest ?c0 ?w0 = Some (map Row rs @ rest)"
      using rest by (simp add: scan_rest_with_sink)
    show "sink_of ?c0 ?w0 = Some (sink_begin_dataset s)"
      using sink by (simp add: sink_of_with_sink)
    show "True \<notin> set (take (length rs) (send_data_script (sink_begin_dataset s)))"
      using ok by (simp add: sink_begin_dataset_def)
    show "length rs + unat (fetch_count ?c0) \<le> unat (fetch_limit ?c0)"
      using le by simp
  qed
  then show ?thesis by simp
qed

text \<open>The four ways a fetch ends, each with the state it leaves.\<close>

lemma fetch_batch_satisfied:
  assumes rest: "scan_rest c w = Some (map Row rs @ rest)"
    and sink: "sink_of c w = Some s"
    and ok: "True \<notin> set (take (length rs) (send_data_script s))"
    and eq: "length rs + unat (fetch_count c) = unat (fetch_limit c + n)"
  shows "fetch n c w =
     Some (False,
           c\<lparr>fetch_limit := fetch_limit c + n, fetch_count := fetch_count c + of_nat (length rs)\<rparr>,
           with_sink c (sink_send_eof (server_status (thd w) OR SERVER_STATUS_CURSOR_EXISTS))
             (set_server_status SERVER_STATUS_CURSOR_EXISTS
               (deliver c rs (with_sink c sink_begin_dataset w))))"
proof -
  let ?c1 = "c\<lparr>fetch_limit := fetch_limit c + n, fetch_count := fetch_count c + of_nat (length rs)\<rparr>"
  let ?w1 = "deliver c rs (with_sink c sink_begin_dataset w)"
  have u: "unat (fetch_count c + of_nat (length rs)) = unat (fetch_count c) + length rs"
    using eq by (intro unat_add_of_nat [where y = "fetch_limit c + n"]) simp
  have "\<not> fetch_count ?c1 < fetch_limit ?c1"
    using eq u by (simp add: word_less_nat_alt)
  then have loop: "fetch_loop ?c1 ?w1 = Some (Loop_done 0, ?c1, ?w1)"
    by (rule fetch_loop_limit)
  have s1: "sink_of ?c1 (set_server_status SERVER_STATUS_CURSOR_EXISTS ?w1) =
      Some (sent_rows rs (sink_begin_dataset s))"
    using sink by (simp add: sink_of_deliver sink_of_with_sink)
  show ?thesis
    using eq
    by (simp add: fetch_start [OF rest sink] fetch_loop_deliver [OF rest sink ok] loop
        result_send_eof_eq [OF s1])
qed

lemma fetch_exhausted:
  assumes rest: "scan_rest c w = Some (map Row rs)"
    and sink: "sink_of c w = Some s"
    and ok: "True \<notin> set (take (length rs) (send_data_script s))"
    and lt: "length rs + unat (fetch_count c) < unat (fetch_limit c + n)"
  shows "fetch n c w =
     Some (False,
           closed (c\<lparr>fetch_limit := fetch_limit c + n,
                     fetch_count := fetch_count c + of_nat (length rs)\<rparr>),
           with_table c close_tmp_table
             (with_sink c (sink_send_eof (server_status (thd w) OR SERVER_STATUS_LAST_ROW_SENT))
               (set_server_status SERVER_STATUS_LAST_ROW_SENT
                 (deliver c rs (with_sink c sink_begin_dataset w)))))"
proof -
  let ?c1 = "c\<lparr>fetch_limit := fetch_limit c + n, fetch_count := fetch_count c + of_nat (length rs)\<rparr>"
  let ?w1 = "deliver c rs (with_sink c sink_begin_dataset w)"
  let ?w2 = "with_sink c (sink_send_eof (server_status (thd w) OR SERVER_STATUS_LAST_ROW_SENT))
               (set_server_status SERVER_STATUS_LAST_ROW_SENT ?w1)"
  have rest': "scan_rest c w = Some (map Row rs @ [])" using rest by simp
  have u: "unat (fetch_count c + of_nat (length rs)) = unat (fetch_count c) + length rs"
    using lt by (intro unat_add_of_nat [where y = "fetch_limit c + n"]) simp
  have r1: "scan_rest ?c1 ?w1 = Some []"
    using rest by (simp add: scan_rest_deliver scan_rest_with_sink)
  have loop: "fetch_loop ?c1 ?w1 = Some (Loop_done HA_ERR_END_OF_FILE, ?c1, ?w1)"
    using lt u by (intro fetch_loop_eof [OF r1]) simp
  have s1: "sink_of ?c1 (set_server_status SERVER_STATUS_LAST_ROW_SENT ?w1) =
      Some (sent_rows rs (sink_begin_dataset s))"
    using sink by (simp add: sink_of_deliver sink_of_with_sink)
  have r2: "scan_rest ?c1 ?w2 = Some []"
    using r1 by (simp add: scan_rest_with_sink)
  have cl: "close ?c1 ?w2 = Some (closed ?c1, with_table ?c1 close_tmp_table ?w2)"
    by (rule close_eq [OF r2])
  have le: "length rs + unat (fetch_count c) \<le> unat (fetch_limit c + n)"
    using lt by simp
  show ?thesis
    by (simp add: fetch_start [OF rest sink] fetch_loop_deliver [OF rest' sink ok le] loop
        result_send_eof_eq [OF s1] cl HA_ERR_END_OF_FILE_def)
qed

lemma fetch_scan_error:
  assumes rest: "scan_rest c w = Some (map Row rs @ Scan_error e # rest)"
    and sink: "sink_of c w = Some s"
    and ok: "True \<notin> set (take (length rs) (send_data_script s))"
    and lt: "length rs + unat (fetch_count c) < unat (fetch_limit c + n)"
    and e: "e \<noteq> 0" "e \<noteq> HA_ERR_END_OF_FILE"
  shows "fetch n c w =
     Some (True,
           closed (c\<lparr>fetch_limit := fetch_limit c + n,
                     fetch_count := fetch_count c + of_nat (length rs)\<rparr>),
           with_table c close_tmp_table
             (print_error e (deliver c rs (with_sink c sink_begin_dataset w))))"
proof -
  let ?c1 = "c\<lparr>fetch_limit := fetch_limit c + n, fetch_count := fetch_count c + of_nat (length rs)\<rparr>"
  let ?w1 = "deliver c rs (with_sink c sink_begin_dataset w)"
  have u: "unat (fetch_count c + of_nat (length rs)) = unat (fetch_count c) + length rs"
    using lt by (intro unat_add_of_nat [where y = "fetch_limit c + n"]) simp
  have r1: "scan_rest ?c1 ?w1 = Some (Scan_error e # rest)"
    using rest by (simp add: scan_rest_deliver scan_rest_with_sink)
  have loop: "fetch_loop ?c1 ?w1 = Some (Loop_done e, ?c1, ?w1)"
    using lt u by (intro fetch_loop_error [OF r1] e) simp
  have r2: "scan_rest ?c1 (print_error e ?w1) = Some (Scan_error e # rest)"
    using r1 by simp
  have cl: "close ?c1 (print_error e ?w1) =
      Some (closed ?c1, with_table ?c1 close_tmp_table (print_error e ?w1))"
    by (rule close_eq [OF r2])
  have le: "length rs + unat (fetch_count c) \<le> unat (fetch_limit c + n)"
    using lt by simp
  show ?thesis
    using e by (simp add: fetch_start [OF rest sink] fetch_loop_deliver [OF rest sink ok le] loop cl)
qed

lemma fetch_send_failed:
  assumes rest: "scan_rest c w = Some (map Row rs @ Row r # rest)"
    and sink: "sink_of c w = Some s"
    and ok: "True \<notin> set (take (length rs) (send_data_script s))"
    and bad: "take 1 (drop (length rs) (send_data_script s)) = [True]"
    and lt: "length rs + unat (fetch_count c) < unat (fetch_limit c + n)"
  shows "fetch n c w =
     Some (True,
           c\<lparr>fetch_limit := fetch_limit c + n, fetch_count := fetch_count c + of_nat (length rs)\<rparr>,
           with_sink c (send_failed r)
             (with_table c (read_rows [r]) (deliver c rs (with_sink c sink_begin_dataset w))))"
proof -
  let ?c1 = "c\<lparr>fetch_limit := fetch_limit c + n, fetch_count := fetch_count c + of_nat (length rs)\<rparr>"
  let ?w1 = "deliver c rs (with_sink c sink_begin_dataset w)"
  have u: "unat (fetch_count c + of_nat (length rs)) = unat (fetch_count c) + length rs"
    using lt by (intro unat_add_of_nat [where y = "fetch_limit c + n"]) simp
  have r1: "scan_rest ?c1 ?w1 = Some (Row r # rest)"
    using rest by (simp add: scan_rest_deliver scan_rest_with_sink)
  have s1: "sink_of ?c1 ?w1 = Some (sent_rows rs (sink_begin_dataset s))"
    using sink by (simp add: sink_of_deliver sink_of_with_sink)
  have b1: "take 1 (send_data_script (sent_rows rs (sink_begin_dataset s))) = [True]"
    using bad by (simp add: sent_rows_def sink_begin_dataset_def)
  have loop: "fetch_loop ?c1 ?w1 =
      Some (Return_true, ?c1, with_sink ?c1 (send_failed r) (with_table ?c1 (read_rows [r]) ?w1))"
    using lt u by (intro fetch_loop_send_failed [OF r1 s1 b1]) simp
  have le: "length rs + unat (fetch_count c) \<le> unat (fetch_limit c + n)"
    using lt by simp
  show ?thesis
    by (simp add: fetch_start [OF rest sink] fetch_loop_deliver [OF rest sink ok le] loop)
qed

subsection \<open>Observations of the states a fetch leaves\<close>

lemma is_open_eq: "is_open c w = map_option has_storage_handler (table_of c w)"
  by (simp add: is_open_def table_of_def split: option.splits)

lemma table_of_simps [simp]:
  "table_of c (with_table c g w) = map_option g (table_of c w)"
  "table_of c (with_sink c f w) = table_of c w"
  "table_of c (set_server_status x w) = table_of c w"
  "table_of c (print_error e w) = table_of c w"
  "table_of (closed c) w = table_of c w"
  "table_of (c\<lparr>fetch_count := y\<rparr>) w = table_of c w"
  "table_of (c\<lparr>fetch_limit := z\<rparr>) w = table_of c w"
  by (simp_all add: table_of_def with_table_def with_sink_def set_server_status_def
      print_error_def closed_def split: option.splits)

lemma sink_of_simps [simp]:
  "sink_of c (with_sink c f w) = map_option f (sink_of c w)"
  "sink_of c (with_table c g w) = sink_of c w"
  "sink_of (closed c) w = sink_of c w"
  by (simp_all add: sink_of_def with_table_def with_sink_def closed_def split: option.splits)

lemma closed_fields [simp]:
  "is_rnd_inited (closed c) = False" "fetch_count (closed c) = fetch_count c"
  "fetch_limit (closed c) = fetch_limit c" "table (closed c) = table c"
  "result (closed c) = result c"
  by (simp_all add: closed_def)

lemma table_of_deliver [simp]: "table_of c (deliver c rs w) = map_option (read_rows rs) (table_of c w)"
  by (simp add: deliver_def)

lemma sink_of_deliver' [simp]: "sink_of c (deliver c rs w) = map_option (sent_rows rs) (sink_of c w)"
  by (simp add: deliver_def)

lemma scan_rest_table_of: "scan_rest c w = Some xs \<Longrightarrow> \<exists>t h. table_of c w = Some t \<and> file_h t = Some h"
  by (auto simp: scan_rest_def split: option.splits)

subsection \<open>How a fetch ends\<close>

text \<open>
  C3. A fetch during which the scan runs out of rows before the call has delivered as many
  rows as it may: the rows left are delivered, the call sets the last-row-sent status,
  sends end-of-data to the sink, closes the cursor in the same call and returns success.
\<close>

theorem fetch_natural_exhaustion:
  assumes "scan_rest c w = Some (map Row rs)"
    and "sink_of c w = Some s"
    and "True \<notin> set (take (length rs) (send_data_script s))"
    and "length rs + unat (fetch_count c) < unat (fetch_limit c + n)"
  shows "\<exists>c' w'. fetch n c w = Some (False, c', w') \<and>
      server_status (thd w') = server_status (thd w) OR SERVER_STATUS_LAST_ROW_SENT \<and>
      sink_events c' w' =
        Some (events s @ Ev_begin_dataset # map Ev_send_data rs @
              [Ev_send_eof (server_status (thd w) OR SERVER_STATUS_LAST_ROW_SENT)]) \<and>
      is_open c' w' = Some False \<and> is_rnd_inited c' = False \<and> scan_rest c' w' = None \<and>
      fetch_count c' = fetch_count c + of_nat (length rs)"
proof -
  from scan_rest_table_of [OF assms(1)] obtain t h where t: "table_of c w = Some t" "file_h t = Some h"
    by blast
  show ?thesis
    using t assms(2)
    by (simp add: fetch_exhausted [OF assms] is_open_eq sink_events_def scan_rest_def
        close_tmp_table_def has_storage_handler_def sink_send_eof_def sent_rows_def
        sink_begin_dataset_def)
qed

lemma example_obs:
  "table_of example_cursor (example_state steps p buf script evs st) =
     Some \<lparr>file_h = Some ((new_handler steps)\<lparr>pos := p, inited := True\<rparr>), record0 = buf,
         created = True, hash_field = False, instantiate_status = False, storage = steps,
         instantiations = 1\<rparr>"
  "sink_of example_cursor (example_state steps p buf script evs st) =
     Some \<lparr>prepare_status = False, send_data_script = script, events = evs\<rparr>"
  "scan_rest example_cursor (example_state steps p buf script evs st) = Some (drop p steps)"
  "server_status (thd (example_state steps p buf script evs st)) = st"
  "da_errors (thd (example_state steps p buf script evs st)) = []"
  by (simp_all add: table_of_def sink_of_def scan_rest_def example_cursor_def example_state_def
      example_thd_def new_handler_def)

lemma example_first_fetch:
  "fetch 2 example_cursor (example_state rows3 0 [] [] [] 0) =
     Some (False, example_cursor\<lparr>fetch_limit := 2, fetch_count := 2\<rparr>,
           example_state rows3 2 [2] []
             [Ev_begin_dataset, Ev_send_data [1], Ev_send_data [2], Ev_send_eof 64] 64)"
proof -
  have r: "scan_rest example_cursor (example_state rows3 0 [] [] [] 0) =
      Some (map Row [[1], [2]] @ [Row [3]])"
    by (simp add: example_obs rows3_def)
  have ok: "True \<notin> set (take (length [[1::int], [2]])
      (send_data_script \<lparr>prepare_status = False, send_data_script = [], events = []\<rparr>))"
    by simp
  have eq: "length [[1::int], [2]] + unat (fetch_count example_cursor) =
      unat (fetch_limit example_cursor + 2)"
    by (simp add: example_cursor_def)
  show ?thesis
    unfolding fetch_batch_satisfied [OF r example_obs(2) ok eq]
    by (simp add: example_cursor_def example_state_def example_thd_def with_sink_def
         with_table_def deliver_def set_server_status_def read_rows_def sent_rows_def
         sink_begin_dataset_def sink_send_eof_def new_handler_def
         SERVER_STATUS_CURSOR_EXISTS_def numeral_2_eq_2)
qed

text \<open>
  The example of the specification: three rows, \<open>fetch(2)\<close> and then \<open>fetch(2)\<close>.
  The first call delivers two rows with the cursor-exists status (64) and leaves the
  cursor open; the second call, from the state the first one left, delivers the third row,
  adds the last-row-sent bit and closes. Nothing in this file clears a status bit, so the
  bit of the first call is still set in the second status.
\<close>

theorem fetch_natural_exhaustion_witness:
  "fetch 2 example_cursor (example_state rows3 0 [] [] [] 0) =
     Some (False, example_cursor\<lparr>fetch_limit := 2, fetch_count := 2\<rparr>,
           example_state rows3 2 [2] []
             [Ev_begin_dataset, Ev_send_data [1], Ev_send_data [2], Ev_send_eof 64] 64) \<and>
   (\<exists>c' w'. fetch 2 (example_cursor\<lparr>fetch_limit := 2, fetch_count := 2\<rparr>)
        (example_state rows3 2 [2] []
           [Ev_begin_dataset, Ev_send_data [1], Ev_send_data [2], Ev_send_eof 64] 64) =
        Some (False, c', w') \<and>
      server_status (thd w') = 64 OR SERVER_STATUS_LAST_ROW_SENT \<and>
      sink_events c' w' =
        Some [Ev_begin_dataset, Ev_send_data [1], Ev_send_data [2], Ev_send_eof 64,
              Ev_begin_dataset, Ev_send_data [3],
              Ev_send_eof (64 OR SERVER_STATUS_LAST_ROW_SENT)] \<and>
      is_open c' w' = Some False \<and> is_rnd_inited c' = False \<and> scan_rest c' w' = None \<and>
      fetch_count c' = 3)"
proof -
  let ?c = "example_cursor\<lparr>fetch_limit := 2, fetch_count := 2\<rparr>"
  let ?w = "example_state rows3 2 [2] []
           [Ev_begin_dataset, Ev_send_data [1], Ev_send_data [2], Ev_send_eof 64] 64"
  have h1: "scan_rest ?c ?w = Some (map Row [[3]])"
    by (simp add: example_obs rows3_def)
  have h2: "sink_of ?c ?w = Some \<lparr>prepare_status = False, send_data_script = [],
      events = [Ev_begin_dataset, Ev_send_data [1], Ev_send_data [2], Ev_send_eof 64]\<rparr>"
    by (simp add: example_obs)
  have h3: "True \<notin> set (take (length [[3::int]]) (send_data_script \<lparr>prepare_status = False,
      send_data_script = [], events = [Ev_begin_dataset, Ev_send_data [1], Ev_send_data [2],
      Ev_send_eof 64]\<rparr>))"
    by simp
  have h4: "length [[3::int]] + unat (fetch_count ?c) < unat (fetch_limit ?c + 2)"
    by simp
  from fetch_natural_exhaustion [OF h1 h2 h3 h4] example_first_fetch show ?thesis
    by (simp add: example_obs)
qed

lemma scan_inited_no_table_change [simp]:
  "scan_inited c (with_sink c f w) = scan_inited c w"
  "scan_inited (c\<lparr>fetch_count := y\<rparr>) w = scan_inited c w"
  "scan_inited (c\<lparr>fetch_limit := z\<rparr>) w = scan_inited c w"
  by (simp_all add: scan_inited_def)

lemma scan_inited_read_rows [simp]:
  "scan_inited c (with_table c (read_rows rs) w) = scan_inited c w"
  by (cases "table_of c w")
     (auto simp: scan_inited_def read_rows_def option.map_comp comp_def)

lemma scan_inited_deliver [simp]: "scan_inited c (deliver c rs w) = scan_inited c w"
  by (simp add: deliver_def)

text \<open>
  C4. A fetch during which the scan handle reports an error other than end-of-data, after
  the rows \<open>rs\<close>: the error is reported (print_error), the cursor is closed and the
  call returns failure. The sink has received the rows read before and nothing else: no
  row for the failed read and no end-of-data.
\<close>

theorem fetch_scan_failure:
  assumes "scan_rest c w = Some (map Row rs @ Scan_error e # rest)"
    and "sink_of c w = Some s"
    and "True \<notin> set (take (length rs) (send_data_script s))"
    and "length rs + unat (fetch_count c) < unat (fetch_limit c + n)"
    and "e \<noteq> 0" and "e \<noteq> HA_ERR_END_OF_FILE"
  shows "\<exists>c' w'. fetch n c w = Some (True, c', w') \<and>
      da_errors (thd w') = da_errors (thd w) @ [Handler_error e] \<and>
      is_open c' w' = Some False \<and> is_rnd_inited c' = False \<and> scan_rest c' w' = None \<and>
      sink_events c' w' = Some (events s @ Ev_begin_dataset # map Ev_send_data rs) \<and>
      server_status (thd w') = server_status (thd w)"
proof -
  from scan_rest_table_of [OF assms(1)] obtain t h where t: "table_of c w = Some t" "file_h t = Some h"
    by blast
  show ?thesis
    using t assms(2)
    by (simp add: fetch_scan_error [OF assms] is_open_eq sink_events_def scan_rest_def
        close_tmp_table_def has_storage_handler_def sent_rows_def sink_begin_dataset_def)
qed

theorem fetch_scan_failure_witness:
  "scan_rest example_cursor (example_state rows_bad2 0 [] [] [] 0) =
     Some (map Row [[1]] @ Scan_error 1 # [Row [3]]) \<and>
   (1::int) \<noteq> 0 \<and> (1::int) \<noteq> HA_ERR_END_OF_FILE \<and>
   (\<exists>c' w'. fetch 3 example_cursor (example_state rows_bad2 0 [] [] [] 0) = Some (True, c', w') \<and>
      da_errors (thd w') = [Handler_error 1] \<and>
      is_open c' w' = Some False \<and> is_rnd_inited c' = False \<and>
      sink_events c' w' = Some [Ev_begin_dataset, Ev_send_data [1]] \<and>
      server_status (thd w') = 0)"
proof -
  let ?c = "example_cursor" and ?w = "example_state rows_bad2 0 [] [] [] 0"
  have h1: "scan_rest ?c ?w = Some (map Row [[1]] @ Scan_error 1 # [Row [3]])"
    by (simp add: example_obs rows_bad2_def)
  have h3: "True \<notin> set (take (length [[1::int]]) (send_data_script
      \<lparr>prepare_status = False, send_data_script = [], events = []\<rparr>))"
    by simp
  have h4: "length [[1::int]] + unat (fetch_count ?c) < unat (fetch_limit ?c + 3)"
    by (simp add: example_cursor_def)
  have h5: "(1::int) \<noteq> 0" and h6: "(1::int) \<noteq> HA_ERR_END_OF_FILE"
    by (simp_all add: HA_ERR_END_OF_FILE_def)
  from fetch_scan_failure [OF h1 example_obs(2) h3 h4 h5 h6] h1 h5 h6 show ?thesis
    by (auto simp: example_obs)
qed

text \<open>
  C5. A fetch during which the sink refuses a row (\<open>send_data\<close> returns failure), after
  it accepted the rows \<open>rs\<close>: the call returns failure at once and closes nothing. The
  cursor is still open, \<open>is_rnd_inited\<close> and the handler's scan are as they were,
  \<open>fetch_limit\<close> keeps the whole increment, \<open>fetch_count\<close> counts the accepted rows
  only, and the sink has seen no end-of-data.
\<close>

theorem fetch_delivery_failure:
  assumes "scan_rest c w = Some (map Row rs @ Row r # rest)"
    and "sink_of c w = Some s"
    and "True \<notin> set (take (length rs) (send_data_script s))"
    and "take 1 (drop (length rs) (send_data_script s)) = [True]"
    and "length rs + unat (fetch_count c) < unat (fetch_limit c + n)"
  shows "\<exists>c' w'. fetch n c w = Some (True, c', w') \<and>
      is_rnd_inited c' = is_rnd_inited c \<and> scan_inited c' w' = scan_inited c w \<and>
      is_open c' w' = Some True \<and> scan_rest c' w' = Some rest \<and>
      fetch_limit c' = fetch_limit c + n \<and>
      fetch_count c' = fetch_count c + of_nat (length rs) \<and>
      sink_events c' w' =
        Some (events s @ Ev_begin_dataset # map Ev_send_data rs @ [Ev_send_data_failed r]) \<and>
      thd w' = thd w"
proof -
  from scan_rest_table_of [OF assms(1)] obtain t h where t: "table_of c w = Some t" "file_h t = Some h"
    by blast
  have "scan_rest c (with_table c (read_rows [r]) (deliver c rs (with_sink c sink_begin_dataset w)))
      = Some rest"
    using assms(1)
    by (simp add: scan_rest_read_rows scan_rest_deliver scan_rest_with_sink)
  then have sr: "scan_rest
      (c\<lparr>fetch_limit := fetch_limit c + n, fetch_count := fetch_count c + of_nat (length rs)\<rparr>)
      (with_sink c (send_failed r)
        (with_table c (read_rows [r]) (deliver c rs (with_sink c sink_begin_dataset w)))) = Some rest"
    by (simp add: scan_rest_with_sink)
  show ?thesis
    using t assms(2) sr
    by (simp add: fetch_send_failed [OF assms] is_open_eq sink_events_def
        has_storage_handler_def sent_rows_def sink_begin_dataset_def send_failed_def
        read_rows_def)
qed

theorem fetch_delivery_failure_witness:
  "scan_rest example_cursor (example_state rows3 0 [] [False, True] [] 0) =
     Some (map Row [[1]] @ Row [2] # [Row [3]]) \<and>
   (\<exists>c' w'. fetch 3 example_cursor (example_state rows3 0 [] [False, True] [] 0) =
        Some (True, c', w') \<and>
      is_rnd_inited c' = True \<and> scan_inited c' w' = Some True \<and>
      is_open c' w' = Some True \<and> scan_rest c' w' = Some [Row [3]] \<and>
      fetch_limit c' = 3 \<and> fetch_count c' = 1 \<and>
      sink_events c' w' = Some [Ev_begin_dataset, Ev_send_data [1], Ev_send_data_failed [2]])"
proof -
  let ?c = "example_cursor" and ?w = "example_state rows3 0 [] [False, True] [] 0"
  have h1: "scan_rest ?c ?w = Some (map Row [[1]] @ Row [2] # [Row [3]])"
    by (simp add: example_obs rows3_def)
  have h3: "True \<notin> set (take (length [[1::int]]) (send_data_script
      \<lparr>prepare_status = False, send_data_script = [False, True], events = []\<rparr>))"
    by simp
  have h4: "take 1 (drop (length [[1::int]]) (send_data_script
      \<lparr>prepare_status = False, send_data_script = [False, True], events = []\<rparr>)) = [True]"
    by simp
  have h5: "length [[1::int]] + unat (fetch_count ?c) < unat (fetch_limit ?c + 3)"
    by (simp add: example_cursor_def)
  have i: "scan_inited ?c ?w = Some True"
    by (simp add: scan_inited_def example_obs new_handler_def)
  have j: "is_rnd_inited ?c = True" "fetch_limit ?c = 0" "fetch_count ?c = 0"
    by (simp_all add: example_cursor_def)
  from fetch_delivery_failure [OF h1 example_obs(2) h3 h4 h5] h1 show ?thesis
    by (auto simp: i j)
qed

subsection \<open>Fetching exactly the rows that are left\<close>

lemma fetch_batch_satisfied_observed:
  assumes "scan_rest c w = Some (map Row rs @ rest)"
    and "sink_of c w = Some s"
    and "True \<notin> set (take (length rs) (send_data_script s))"
    and "length rs + unat (fetch_count c) = unat (fetch_limit c + n)"
  shows "\<exists>c' w' s'. fetch n c w = Some (False, c', w') \<and>
      fetch_limit c' = fetch_limit c + n \<and>
      fetch_count c' = fetch_count c + of_nat (length rs) \<and>
      is_rnd_inited c' = is_rnd_inited c \<and>
      scan_rest c' w' = Some rest \<and> is_open c' w' = Some True \<and>
      sink_of c' w' = Some s' \<and>
      send_data_script s' = drop (length rs) (send_data_script s) \<and>
      events s' = events s @ Ev_begin_dataset # map Ev_send_data rs @
        [Ev_send_eof (server_status (thd w) OR SERVER_STATUS_CURSOR_EXISTS)] \<and>
      server_status (thd w') = server_status (thd w) OR SERVER_STATUS_CURSOR_EXISTS \<and>
      da_errors (thd w') = da_errors (thd w)"
proof -
  from scan_rest_table_of [OF assms(1)] obtain t h where t: "table_of c w = Some t" "file_h t = Some h"
    by blast
  let ?c1 = "c\<lparr>fetch_limit := fetch_limit c + n, fetch_count := fetch_count c + of_nat (length rs)\<rparr>"
  let ?w1 = "with_sink c (sink_send_eof (server_status (thd w) OR SERVER_STATUS_CURSOR_EXISTS))
             (set_server_status SERVER_STATUS_CURSOR_EXISTS
               (deliver c rs (with_sink c sink_begin_dataset w)))"
  have sr: "scan_rest ?c1 ?w1 = Some rest"
    using assms(1) by (simp add: scan_rest_with_sink scan_rest_deliver)
  show ?thesis
    using t assms(2) sr
    by (simp add: fetch_batch_satisfied [OF assms] is_open_eq has_storage_handler_def
        sent_rows_def sink_begin_dataset_def sink_send_eof_def read_rows_def)
qed

lemma fetch_exhausted_observed:
  assumes "scan_rest c w = Some (map Row rs)"
    and "sink_of c w = Some s"
    and "True \<notin> set (take (length rs) (send_data_script s))"
    and "length rs + unat (fetch_count c) < unat (fetch_limit c + n)"
  shows "\<exists>c' w'. fetch n c w = Some (False, c', w') \<and>
      server_status (thd w') = server_status (thd w) OR SERVER_STATUS_LAST_ROW_SENT \<and>
      sink_events c' w' =
        Some (events s @ Ev_begin_dataset # map Ev_send_data rs @
              [Ev_send_eof (server_status (thd w) OR SERVER_STATUS_LAST_ROW_SENT)]) \<and>
      is_open c' w' = Some False \<and> is_rnd_inited c' = False \<and> scan_rest c' w' = None \<and>
      fetch_count c' = fetch_count c + of_nat (length rs)"
proof -
  from scan_rest_table_of [OF assms(1)] obtain t h where t: "table_of c w = Some t" "file_h t = Some h"
    by blast
  show ?thesis
    using t assms(2)
    by (simp add: fetch_exhausted [OF assms] is_open_eq sink_events_def scan_rest_def
        close_tmp_table_def has_storage_handler_def sink_send_eof_def sent_rows_def
        sink_begin_dataset_def)
qed

lemma fetch_seq_exact:
  assumes "scan_rest c w = Some (map Row rs)"
    and "sink_of c w = Some s"
    and "True \<notin> set (send_data_script s)"
    and "fetch_count c = fetch_limit c"
    and "sum_list (map unat ns) = length rs"
    and "unat (fetch_limit c) + length rs < 2 ^ 64"
  shows "\<exists>c' w' s'. fetch_seq ns c w = Some (False, c', w') \<and>
      scan_rest c' w' = Some [] \<and> sink_of c' w' = Some s' \<and>
      True \<notin> set (send_data_script s') \<and>
      fetch_count c' = fetch_limit c' \<and>
      unat (fetch_limit c') = unat (fetch_limit c) + length rs \<and>
      filter is_send_data (events s') = filter is_send_data (events s) @ map Ev_send_data rs \<and>
      (ns = [] \<or> last (events s') = Ev_send_eof (server_status (thd w) OR SERVER_STATUS_CURSOR_EXISTS)) \<and>
      server_status (thd w') =
        (if ns = [] then server_status (thd w)
         else server_status (thd w) OR SERVER_STATUS_CURSOR_EXISTS)"
  using assms
proof (induction ns arbitrary: c w s rs)
  case Nil
  then show ?case by simp
next
  case (Cons n ns)
  let ?k = "unat n"
  let ?st = "server_status (thd w) OR SERVER_STATUS_CURSOR_EXISTS"
  have k: "?k \<le> length rs" and rest_sum: "sum_list (map unat ns) = length rs - ?k"
    using Cons.prems(5) by simp_all
  have split: "map Row rs = map Row (take ?k rs) @ map Row (drop ?k rs)"
    by (simp flip: map_append)
  have r: "scan_rest c w = Some (map Row (take ?k rs) @ map Row (drop ?k rs))"
    using Cons.prems(1) split by simp
  have ok: "True \<notin> set (take (length (take ?k rs)) (send_data_script s))"
    using Cons.prems(3) by (meson in_set_takeD)
  have nowrap: "unat (fetch_limit c + n) = unat (fetch_limit c) + ?k"
    using Cons.prems(6) k by (simp add: unat_add_lem [THEN iffD1])
  have eq: "length (take ?k rs) + unat (fetch_count c) = unat (fetch_limit c + n)"
    using k nowrap Cons.prems(4) by simp
  from fetch_batch_satisfied_observed [OF r Cons.prems(2) ok eq]
  obtain c1 w1 s1 where f: "fetch n c w = Some (False, c1, w1)"
    and fl1: "fetch_limit c1 = fetch_limit c + n"
    and fc1: "fetch_count c1 = fetch_count c + of_nat (length (take ?k rs))"
    and r1: "scan_rest c1 w1 = Some (map Row (drop ?k rs))"
    and s1: "sink_of c1 w1 = Some s1"
    and scr1: "send_data_script s1 = drop (length (take ?k rs)) (send_data_script s)"
    and ev1: "events s1 = events s @ Ev_begin_dataset # map Ev_send_data (take ?k rs) @ [Ev_send_eof ?st]"
    and st1: "server_status (thd w1) = ?st"
    by blast
  have ok1: "True \<notin> set (send_data_script s1)"
    using Cons.prems(3) scr1 by (auto dest: in_set_dropD)
  have cnt1: "fetch_count c1 = fetch_limit c1"
    using fc1 fl1 k Cons.prems(4) by simp
  have sum1: "sum_list (map unat ns) = length (drop ?k rs)"
    using rest_sum by simp
  have lim1: "unat (fetch_limit c1) + length (drop ?k rs) < 2 ^ 64"
    using fl1 nowrap k Cons.prems(6) by simp
  from Cons.IH [OF r1 s1 ok1 cnt1 sum1 lim1]
  obtain c' w' s' where g: "fetch_seq ns c1 w1 = Some (False, c', w')"
    and r': "scan_rest c' w' = Some []" and s': "sink_of c' w' = Some s'"
    and ok': "True \<notin> set (send_data_script s')"
    and cnt': "fetch_count c' = fetch_limit c'"
    and lim': "unat (fetch_limit c') = unat (fetch_limit c1) + length (drop ?k rs)"
    and flt': "filter is_send_data (events s') = filter is_send_data (events s1) @ map Ev_send_data (drop ?k rs)"
    and last': "ns = [] \<or> last (events s') = Ev_send_eof (server_status (thd w1) OR SERVER_STATUS_CURSOR_EXISTS)"
    and st': "server_status (thd w') =
        (if ns = [] then server_status (thd w1)
         else server_status (thd w1) OR SERVER_STATUS_CURSOR_EXISTS)"
    by blast
  have seq: "fetch_seq (n # ns) c w = Some (False, c', w')"
    using f g by simp
  have lim: "unat (fetch_limit c') = unat (fetch_limit c) + length rs"
    using lim' fl1 nowrap k by simp
  have sends: "filter is_send_data (map Ev_send_data xs) = map Ev_send_data xs" for xs
    by (induction xs) simp_all
  have flt: "filter is_send_data (events s') = filter is_send_data (events s) @ map Ev_send_data rs"
    using flt' ev1 by (simp add: sends flip: map_append)
  have st: "server_status (thd w') = ?st"
    using st' st1 by (simp add: or.assoc)
  have lst: "last (events s') = Ev_send_eof ?st"
  proof (cases "ns = []")
    case True
    with g s' s1 ev1 show ?thesis by simp
  next
    case False
    with last' st1 show ?thesis by (simp add: or.assoc)
  qed
  from seq r' s' ok' cnt' lim flt st lst show ?case
    by simp
qed

text \<open>
  C1, as the code has it. On an open cursor whose scan has the rows \<open>rs\<close> left, with a
  sink that accepts every row and counters that do not wrap around: when the fetches of a
  sequence ask for exactly as many rows as are left, every row is delivered in order, the
  last call reports cursor-exists and the cursor stays open. The last-row-sent status and
  the close come with the next fetch of at least one row, which delivers nothing.
\<close>

theorem fetch_exact_count_stays_open:
  assumes "scan_rest c w = Some (map Row rs)"
    and "sink_of c w = Some s"
    and "True \<notin> set (send_data_script s)"
    and "fetch_count c = fetch_limit c"
    and "ns \<noteq> []"
    and "sum_list (map unat ns) = length rs"
    and "m \<noteq> 0"
    and "unat (fetch_limit c) + length rs + unat m < 2 ^ 64"
  shows "\<exists>c' w' s'. fetch_seq ns c w = Some (False, c', w') \<and>
      is_open c' w' = Some True \<and>
      server_status (thd w') = server_status (thd w) OR SERVER_STATUS_CURSOR_EXISTS \<and>
      sink_of c' w' = Some s' \<and>
      last (events s') = Ev_send_eof (server_status (thd w) OR SERVER_STATUS_CURSOR_EXISTS) \<and>
      filter is_send_data (events s') = filter is_send_data (events s) @ map Ev_send_data rs \<and>
      (\<exists>c'' w''. fetch m c' w' = Some (False, c'', w'') \<and>
         is_open c'' w'' = Some False \<and>
         server_status (thd w'') = server_status (thd w') OR SERVER_STATUS_LAST_ROW_SENT \<and>
         sink_events c'' w'' =
           Some (events s' @ [Ev_begin_dataset,
                  Ev_send_eof (server_status (thd w') OR SERVER_STATUS_LAST_ROW_SENT)]))"
proof -
  have lim: "unat (fetch_limit c) + length rs < 2 ^ 64"
    using assms(8) by simp
  from fetch_seq_exact [OF assms(1-4) assms(6) lim] assms(5)
  obtain c' w' s' where seq: "fetch_seq ns c w = Some (False, c', w')"
    and r': "scan_rest c' w' = Some []" and s': "sink_of c' w' = Some s'"
    and ok': "True \<notin> set (send_data_script s')"
    and cnt': "fetch_count c' = fetch_limit c'"
    and lim': "unat (fetch_limit c') = unat (fetch_limit c) + length rs"
    and flt: "filter is_send_data (events s') = filter is_send_data (events s) @ map Ev_send_data rs"
    and lst: "last (events s') = Ev_send_eof (server_status (thd w) OR SERVER_STATUS_CURSOR_EXISTS)"
    and st: "server_status (thd w') = server_status (thd w) OR SERVER_STATUS_CURSOR_EXISTS"
    by auto
  from scan_rest_table_of [OF r'] have op: "is_open c' w' = Some True"
    by (auto simp: is_open_eq has_storage_handler_def)
  have r0: "scan_rest c' w' = Some (map Row [])"
    using r' by simp
  have ok0: "True \<notin> set (take (length ([] :: row list)) (send_data_script s'))"
    by simp
  have "unat (fetch_limit c' + m) = unat (fetch_limit c') + unat m"
    using assms(8) lim' by (simp add: unat_add_lem [THEN iffD1])
  moreover have "0 < unat m"
    using assms(7) by (simp add: unat_gt_0)
  ultimately have lt: "length ([] :: row list) + unat (fetch_count c') < unat (fetch_limit c' + m)"
    using cnt' by simp
  from fetch_exhausted_observed [OF r0 s' ok0 lt]
  obtain c'' w'' where "fetch m c' w' = Some (False, c'', w'')"
    "is_open c'' w'' = Some False"
    "server_status (thd w'') = server_status (thd w') OR SERVER_STATUS_LAST_ROW_SENT"
    "sink_events c'' w'' =
       Some (events s' @ [Ev_begin_dataset,
              Ev_send_eof (server_status (thd w') OR SERVER_STATUS_LAST_ROW_SENT)])"
    by auto
  with seq op st s' lst flt show ?thesis
    by blast
qed

theorem fetch_exact_count_stays_open_witness:
  "scan_rest example_cursor (example_state rows2 0 [] [] [] 0) = Some (map Row [[1], [2]]) \<and>
   sum_list (map unat [1, 1 :: ulong]) = length [[1 :: int], [2]] \<and>
   (\<exists>c' w' s'. fetch_seq [1, 1] example_cursor (example_state rows2 0 [] [] [] 0) =
        Some (False, c', w') \<and>
      is_open c' w' = Some True \<and>
      server_status (thd w') = SERVER_STATUS_CURSOR_EXISTS \<and>
      sink_of c' w' = Some s' \<and>
      last (events s') = Ev_send_eof SERVER_STATUS_CURSOR_EXISTS \<and>
      filter is_send_data (events s') = [Ev_send_data [1], Ev_send_data [2]] \<and>
      (\<exists>c'' w''. fetch 5 c' w' = Some (False, c'', w'') \<and>
         is_open c'' w'' = Some False \<and>
         server_status (thd w'') = SERVER_STATUS_CURSOR_EXISTS OR SERVER_STATUS_LAST_ROW_SENT \<and>
         sink_events c'' w'' =
           Some (events s' @ [Ev_begin_dataset,
                  Ev_send_eof (SERVER_STATUS_CURSOR_EXISTS OR SERVER_STATUS_LAST_ROW_SENT)])))"
proof -
  let ?c = "example_cursor" and ?w = "example_state rows2 0 [] [] [] 0"
  have h1: "scan_rest ?c ?w = Some (map Row [[1], [2]])"
    by (simp add: example_obs rows2_def)
  have h3: "True \<notin> set (send_data_script
      \<lparr>prepare_status = False, send_data_script = [], events = []\<rparr>)"
    by simp
  have h4: "fetch_count ?c = fetch_limit ?c"
    by (simp add: example_cursor_def)
  have h5: "[1, 1 :: ulong] \<noteq> []"
    by simp
  have h6: "sum_list (map unat [1, 1 :: ulong]) = length [[1 :: int], [2]]"
    by simp
  have h7: "(5 :: ulong) \<noteq> 0"
    by simp
  have h8: "unat (fetch_limit ?c) + length [[1 :: int], [2]] + unat (5 :: ulong) < 2 ^ 64"
    by (simp add: example_cursor_def)
  from fetch_exact_count_stays_open [OF h1 example_obs(2) h3 h4 h5 h6 h7 h8] h1 h6
  show ?thesis
    by (auto simp: example_obs simp del: fetch_seq.simps)
qed

text \<open>
  C1 as stated fails: on a table of two rows, \<open>fetch(2)\<close> asks for exactly the rows
  there are; the call returns success with the cursor-exists status, the last-row-sent
  bit is not set, and the cursor is still open.
\<close>

theorem fetch_exact_count_counterexample:
  "fetch 2 example_cursor (example_state rows2 0 [] [] [] 0) =
     Some (False, example_cursor\<lparr>fetch_limit := 2, fetch_count := 2\<rparr>,
           example_state rows2 2 [2] []
             [Ev_begin_dataset, Ev_send_data [1], Ev_send_data [2], Ev_send_eof 64] 64) \<and>
   is_open (example_cursor\<lparr>fetch_limit := 2, fetch_count := 2\<rparr>)
     (example_state rows2 2 [2] []
        [Ev_begin_dataset, Ev_send_data [1], Ev_send_data [2], Ev_send_eof 64] 64) = Some True \<and>
   SERVER_STATUS_CURSOR_EXISTS = 64 \<and> 64 AND SERVER_STATUS_LAST_ROW_SENT = 0"
proof -
  have r: "scan_rest example_cursor (example_state rows2 0 [] [] [] 0) =
      Some (map Row [[1], [2]] @ [])"
    by (simp add: example_obs rows2_def)
  have ok: "True \<notin> set (take (length [[1::int], [2]])
      (send_data_script \<lparr>prepare_status = False, send_data_script = [], events = []\<rparr>))"
    by simp
  have eq: "length [[1::int], [2]] + unat (fetch_count example_cursor) =
      unat (fetch_limit example_cursor + 2)"
    by (simp add: example_cursor_def)
  have f: "fetch 2 example_cursor (example_state rows2 0 [] [] [] 0) =
     Some (False, example_cursor\<lparr>fetch_limit := 2, fetch_count := 2\<rparr>,
           example_state rows2 2 [2] []
             [Ev_begin_dataset, Ev_send_data [1], Ev_send_data [2], Ev_send_eof 64] 64)"
    unfolding fetch_batch_satisfied [OF r example_obs(2) ok eq]
    by (simp add: example_cursor_def example_state_def example_thd_def with_sink_def
         with_table_def deliver_def set_server_status_def read_rows_def sent_rows_def
         sink_begin_dataset_def sink_send_eof_def new_handler_def
         SERVER_STATUS_CURSOR_EXISTS_def numeral_2_eq_2)
  have o: "is_open (example_cursor\<lparr>fetch_limit := 2, fetch_count := 2\<rparr>)
     (example_state rows2 2 [2] []
        [Ev_begin_dataset, Ev_send_data [1], Ev_send_data [2], Ev_send_eof 64] 64) = Some True"
    by (simp add: is_open_eq example_obs has_storage_handler_def)
  show ?thesis
    using f o by (simp add: SERVER_STATUS_CURSOR_EXISTS_def SERVER_STATUS_LAST_ROW_SENT_def)
qed

subsection \<open>Opening the cursor\<close>

text \<open>
  C10. Whatever \<open>open\<close> returns, success or failure, both counters are zero afterwards.
\<close>

theorem open_resets_counters:
  assumes "cursor_open c w = Some (rc, c', w')"
  shows "fetch_limit c' = 0 \<and> fetch_count c' = 0"
  using assms
  by (auto simp: cursor_open_def Let_def split: prod.splits option.splits if_splits)

lemma example_open_scan_init_fails:
  "\<exists>c' w'. cursor_open example_bound_cursor (example_bound_state 1 False) = Some (True, c', w') \<and>
     sink_events c' w' = Some [Ev_prepare, Ev_abort_result_set] \<and>
     fetch_limit example_bound_cursor = 7 \<and> fetch_count example_bound_cursor = 5"
  by (simp add: cursor_open_def example_bound_cursor_def example_bound_state_def example_thd_def
      swap_query_arena_def result_prepare_def sink_prepare_def table_ha_rnd_init_def
      ha_rnd_init_def new_handler_def result_abort_result_set_def sink_abort_result_set_def
      sink_events_def sink_of_def)

theorem open_resets_counters_witness:
  "\<exists>c' w'. cursor_open example_bound_cursor (example_bound_state 1 False) = Some (True, c', w') \<and>
     fetch_limit example_bound_cursor = 7 \<and> fetch_count example_bound_cursor = 5 \<and>
     fetch_limit c' = 0 \<and> fetch_count c' = 0"
proof -
  from example_open_scan_init_fails obtain c' w' where
    o: "cursor_open example_bound_cursor (example_bound_state 1 False) = Some (True, c', w')"
    and b: "fetch_limit example_bound_cursor = 7" "fetch_count example_bound_cursor = 5"
    by blast
  from open_resets_counters [OF o] o b show ?thesis
    by simp
qed

text \<open>
  C7 at a sink whose \<open>prepare\<close> fails. \<open>rc = !rc && ha_rnd_init(...)\<close> turns the failure
  into \<open>rc = false\<close>: \<open>open\<close> does not start the scan, sets \<open>is_rnd_inited\<close>, sets the
  cursor-exists bit, sends end-of-metadata and returns success. The handler is not
  scanning afterwards.
\<close>

theorem open_succeeds_after_failed_prepare:
  "\<exists>c' w'. cursor_open example_bound_cursor (example_bound_state 0 True) = Some (False, c', w') \<and>
     is_rnd_inited c' = True \<and> scan_inited c' w' = Some False \<and> is_open c' w' = Some True \<and>
     fetch_count c' = 0 \<and> fetch_limit c' = 0 \<and>
     server_status (thd w') = SERVER_STATUS_CURSOR_EXISTS \<and>
     sink_events c' w' = Some [Ev_prepare, Ev_send_eof SERVER_STATUS_CURSOR_EXISTS]"
  by (simp add: cursor_open_def example_bound_cursor_def example_bound_state_def example_thd_def
      swap_query_arena_def result_prepare_def sink_prepare_def
      result_send_eof_def sink_send_eof_def set_server_status_def
      sink_events_def sink_of_def scan_inited_def table_of_def is_open_def
      has_storage_handler_def new_handler_def)

text \<open>
  What C7 states holds whenever the sink's \<open>prepare\<close> succeeded: a successful \<open>open\<close>
  then leaves both counters at zero, the scan started and before the first row, the cursor
  open, the cursor-exists bit set and end-of-metadata sent.
\<close>

lemma open_success_after_prepare:
  assumes "sink_of c w = Some s" and "\<not> prepare_status s"
    and "cursor_open c w = Some (False, c', w')"
  shows "fetch_count c' = 0 \<and> fetch_limit c' = 0 \<and> is_rnd_inited c' \<and>
     scan_inited c' w' = Some True \<and> scan_pos c' w' = Some 0 \<and> is_open c' w' = Some True \<and>
     server_status (thd w') AND SERVER_STATUS_CURSOR_EXISTS = SERVER_STATUS_CURSOR_EXISTS \<and>
     sink_events c' w' =
       Some (events s @ [Ev_prepare, Ev_send_eof (server_status (thd w) OR SERVER_STATUS_CURSOR_EXISTS)])"
  using assms
  by (auto simp: cursor_open_def Let_def sink_of_def swap_query_arena_def result_prepare_def
      sink_prepare_def table_ha_rnd_init_def ha_rnd_init_def result_send_eof_def
      sink_send_eof_def set_server_status_def sink_events_def scan_inited_def scan_pos_def
      table_of_def is_open_def has_storage_handler_def result_abort_result_set_def
      split: prod.splits option.splits if_splits)

text \<open>
  \<open>open\<close> returns on every cursor that has its table, with a storage handler, and its
  sink; it returns failure exactly when \<open>prepare\<close> succeeded and \<open>ha_rnd_init\<close> failed.
\<close>

lemma cursor_open_returns:
  assumes "table_of c w = Some t" and "file_h t = Some h" and "sink_of c w = Some s"
  shows "\<exists>c' w'. cursor_open c w = Some (\<not> prepare_status s \<and> rnd_init_status h \<noteq> 0, c', w')"
  using assms
  by (auto simp: cursor_open_def Let_def table_of_def sink_of_def swap_query_arena_def
      result_prepare_def sink_prepare_def table_ha_rnd_init_def ha_rnd_init_def
      result_send_eof_def result_abort_result_set_def set_server_status_def
      split: option.splits)

subsection \<open>The counters\<close>

lemma table_ha_rnd_next_frame:
  "table_ha_rnd_next c w = Some (res, w1) \<Longrightarrow> sinks w1 = sinks w \<and> thd w1 = thd w"
  by (auto simp: table_ha_rnd_next_def split: option.splits prod.splits)

lemma result_send_data_frame:
  "result_send_data c w1 = Some (failed, w2) \<Longrightarrow>
   thd w2 = thd w1 \<and> delivered c w2 = delivered c w1 + (if failed then 0 else 1)"
  by (auto simp: result_send_data_def delivered_def sink_of_def sink_send_data_def Let_def
      split: option.splits)

lemma delivered_cong: "sinks w1 = sinks w \<Longrightarrow> delivered c w1 = delivered c w"
  by (simp add: delivered_def sink_of_def split: option.splits)

lemma delivered_fetch_count [simp]: "delivered (c\<lparr>fetch_count := x\<rparr>) w = delivered c w"
  by (simp add: delivered_def)

lemma unat_Suc_less:
  fixes x y :: ulong
  shows "x < y \<Longrightarrow> unat (x + 1) = Suc (unat x)"
  by unat_arith

lemma fetch_loop_unfold:
  "fetch_count c < fetch_limit c \<Longrightarrow>
   fetch_loop c w =
     (case table_ha_rnd_next c w of None \<Rightarrow> None
      | Some (res, w1) \<Rightarrow>
          if res \<noteq> 0 then Some (Loop_done res, c, w1)
          else (case result_send_data c w1 of None \<Rightarrow> None
                | Some (failed, w2) \<Rightarrow>
                    if failed then Some (Return_true, c, w2)
                    else fetch_loop (c\<lparr>fetch_count := fetch_count c + 1\<rparr>) w2))"
  by (subst fetch_loop.simps) simp

lemma fetch_loop_counters:
  "fetch_loop c w = Some (ex, c', w') \<Longrightarrow>
     fetch_limit c' = fetch_limit c \<and> result c' = result c \<and> table c' = table c \<and>
     is_rnd_inited c' = is_rnd_inited c \<and> thd w' = thd w \<and>
     unat (fetch_count c) \<le> unat (fetch_count c') \<and>
     (unat (fetch_count c) \<le> unat (fetch_limit c) \<longrightarrow>
        unat (fetch_count c') \<le> unat (fetch_limit c)) \<and>
     delivered c w' = delivered c w + (unat (fetch_count c') - unat (fetch_count c))"
proof (induction c w arbitrary: ex c' w' rule: fetch_loop.induct)
  case (1 c w)
  show ?case
  proof (cases "fetch_count c < fetch_limit c")
    case False
    then have "fetch_loop c w = Some (Loop_done 0, c, w)"
      by (rule fetch_loop_limit)
    with "1.prems" show ?thesis
      by auto
  next
    case lt: True
    then have ulim: "unat (fetch_count c) < unat (fetch_limit c)"
      by (simp add: word_less_nat_alt)
    have u: "unat (fetch_count c + 1) = Suc (unat (fetch_count c))"
      using lt by (rule unat_Suc_less)
    note unf = fetch_loop_unfold [OF lt, of w]
    from "1.prems" obtain res w1 where nx: "table_ha_rnd_next c w = Some (res, w1)"
      unfolding unf by (cases "table_ha_rnd_next c w") auto
    note fr1 = table_ha_rnd_next_frame [OF nx]
    have d1: "delivered c w1 = delivered c w"
      using fr1 by (intro delivered_cong) simp
    show ?thesis
    proof (cases "res = 0")
      case False
      with "1.prems" nx have "c' = c \<and> w' = w1"
        unfolding unf by simp
      with fr1 d1 show ?thesis
        by simp
    next
      case r0: True
      from "1.prems" nx r0 obtain failed w2 where sd: "result_send_data c w1 = Some (failed, w2)"
        unfolding unf by (cases "result_send_data c w1") auto
      note fr2 = result_send_data_frame [OF sd]
      show ?thesis
      proof (cases failed)
        case True
        with "1.prems" nx r0 sd have "c' = c \<and> w' = w2"
          unfolding unf by simp
        with fr1 fr2 d1 True show ?thesis
          by simp
      next
        case False
        with "1.prems" nx r0 sd
        have rec: "fetch_loop (c\<lparr>fetch_count := fetch_count c + 1\<rparr>) w2 = Some (ex, c', w')"
          unfolding unf by simp
        have r0': "\<not> res \<noteq> 0" using r0 by simp
        from "1.IH" [OF lt nx refl r0' sd refl False rec]
        have ih: "fetch_limit c' = fetch_limit c \<and> result c' = result c \<and> table c' = table c \<and>
            is_rnd_inited c' = is_rnd_inited c" "thd w' = thd w2"
          "unat (fetch_count c + 1) \<le> unat (fetch_count c')"
          "unat (fetch_count c + 1) \<le> unat (fetch_limit c) \<longrightarrow>
             unat (fetch_count c') \<le> unat (fetch_limit c)"
          "delivered c w' = delivered c w2 + (unat (fetch_count c') - unat (fetch_count c + 1))"
          by simp_all
        have d2: "delivered c w2 = delivered c w + 1"
          using d1 fr2 False by simp
        from ih d2 u ulim fr1 fr2 show ?thesis
          by auto
      qed
    qed
  qed
qed

lemma delivered_result: "result c' = result c \<Longrightarrow> delivered c' w = delivered c w"
  by (simp add: delivered_def sink_of_def)

lemma result_begin_dataset_delivered:
  "result_begin_dataset c w = Some w0 \<Longrightarrow> delivered c w0 = delivered c w"
  by (auto simp: result_begin_dataset_def delivered_def sink_of_def sink_begin_dataset_def
      split: option.splits)

lemma result_send_eof_delivered:
  "result_send_eof c w = Some w2 \<Longrightarrow> delivered c w2 = delivered c w"
  by (auto simp: result_send_eof_def delivered_def sink_of_def sink_send_eof_def
      split: option.splits)

lemma delivered_thd_only [simp]:
  "delivered c (set_server_status f w) = delivered c w"
  "delivered c (print_error e w) = delivered c w"
  by (simp_all add: delivered_def sink_of_def set_server_status_def print_error_def
      split: option.splits)

lemma close_frame:
  "close c w = Some (c3, w3) \<Longrightarrow>
   fetch_limit c3 = fetch_limit c \<and> fetch_count c3 = fetch_count c \<and> result c3 = result c \<and>
   sinks w3 = sinks w"
  by (auto simp: close_def split: option.splits if_splits)

lemma fetch_counters:
  assumes "fetch n c w = Some (rc, c', w')"
  shows "fetch_limit c' = fetch_limit c + n \<and>
     unat (fetch_count c) \<le> unat (fetch_count c') \<and>
     (unat (fetch_count c) \<le> unat (fetch_limit c + n) \<longrightarrow>
        unat (fetch_count c') \<le> unat (fetch_limit c')) \<and>
     delivered c' w' = delivered c w + (unat (fetch_count c') - unat (fetch_count c))"
proof -
  let ?c0 = "c\<lparr>fetch_limit := fetch_limit c + n\<rparr>"
  from assms obtain w0 ex c1 w1 where b: "result_begin_dataset c w = Some w0"
    and l: "fetch_loop ?c0 w0 = Some (ex, c1, w1)"
    by (auto simp: fetch_def split: option.splits)
  from fetch_loop_counters [OF l]
  have inv: "fetch_limit c1 = fetch_limit c + n" "result c1 = result c"
    "unat (fetch_count c) \<le> unat (fetch_count c1)"
    "unat (fetch_count c) \<le> unat (fetch_limit c + n) \<longrightarrow>
       unat (fetch_count c1) \<le> unat (fetch_limit c + n)"
    "delivered c w1 = delivered c w0 + (unat (fetch_count c1) - unat (fetch_count c))"
    by (simp_all add: delivered_def sink_of_def)
  have d0: "delivered c w0 = delivered c w"
    by (rule result_begin_dataset_delivered [OF b])
  have tail: "fetch_limit c' = fetch_limit c1 \<and> fetch_count c' = fetch_count c1 \<and>
      result c' = result c1 \<and> delivered c1 w' = delivered c1 w1"
  proof (cases ex)
    case Return_true
    with assms b l show ?thesis
      by (auto simp: fetch_def split: option.splits)
  next
    case (Loop_done res)
    show ?thesis
    proof (cases "res = 0")
      case True
      with assms b l Loop_done
      obtain w2 where "result_send_eof c1 (set_server_status SERVER_STATUS_CURSOR_EXISTS w1) = Some w2"
        "c' = c1" "w' = w2"
        by (auto simp: fetch_def split: option.splits)
      then show ?thesis
        by (auto dest: result_send_eof_delivered)
    next
      case nz: False
      show ?thesis
      proof (cases "res = HA_ERR_END_OF_FILE")
        case True
        with assms b l Loop_done nz
        obtain w2 where e: "result_send_eof c1 (set_server_status SERVER_STATUS_LAST_ROW_SENT w1) = Some w2"
          and cl: "close c1 w2 = Some (c', w')"
          by (auto simp: fetch_def split: option.splits)
        from close_frame [OF cl] have "delivered c1 w' = delivered c1 w2"
          by (intro delivered_cong) simp
        with close_frame [OF cl] result_send_eof_delivered [OF e] show ?thesis
          by simp
      next
        case False
        with assms b l Loop_done nz
        have cl: "close c1 (print_error res w1) = Some (c', w')"
          by (auto simp: fetch_def split: option.splits)
        from close_frame [OF cl] have "delivered c1 w' = delivered c1 (print_error res w1)"
          by (intro delivered_cong) simp
        with close_frame [OF cl] show ?thesis
          by simp
      qed
    qed
  qed
  have rc': "result c' = result c" and rc1: "result c1 = result c"
    using tail inv(2) by simp_all
  have dc: "delivered c' w' = delivered c w'" "delivered c1 w' = delivered c w'"
    "delivered c1 w1 = delivered c w1"
    by (rule delivered_result [OF rc'], (rule delivered_result [OF rc1])+)
  from tail inv d0 dc show ?thesis
    by simp
qed

text \<open>
  C6, as the code has it: the counters are machine words and \<open>fetch_limit += num_rows\<close>
  wraps around. \<open>open\<close> sets both counters to zero and \<open>close\<close> leaves them alone. A
  fetch on counters with \<open>fetch_count \<le> fetch_limit\<close> whose increment does not take
  \<open>fetch_limit\<close> past the largest \<open>ulong\<close> keeps \<open>fetch_count \<le> fetch_limit\<close>,
  raises \<open>fetch_limit\<close> by exactly \<open>n\<close>, never lowers \<open>fetch_count\<close>, and raises
  \<open>fetch_count\<close> by the number of rows the sink accepted during the call.
\<close>

theorem counters_invariant:
  "(\<forall>rc c' w'. cursor_open c w = Some (rc, c', w') \<longrightarrow>
      fetch_count c' = 0 \<and> fetch_limit c' = 0 \<and> fetch_count c' \<le> fetch_limit c') \<and>
   (\<forall>c' w'. close c w = Some (c', w') \<longrightarrow>
      fetch_count c' = fetch_count c \<and> fetch_limit c' = fetch_limit c) \<and>
   (\<forall>rc c' w'. fetch n c w = Some (rc, c', w') \<longrightarrow>
      fetch_count c \<le> fetch_limit c \<longrightarrow> unat (fetch_limit c) + unat n < 2 ^ 64 \<longrightarrow>
      fetch_count c' \<le> fetch_limit c' \<and>
      unat (fetch_limit c') = unat (fetch_limit c) + unat n \<and>
      fetch_count c \<le> fetch_count c' \<and>
      unat (fetch_count c') = unat (fetch_count c) + (delivered c' w' - delivered c w))"
proof (intro conjI allI impI)
  fix rc c' w'
  assume "cursor_open c w = Some (rc, c', w')"
  then have z: "fetch_limit c' = 0 \<and> fetch_count c' = 0"
    by (auto simp: cursor_open_def Let_def split: prod.splits option.splits if_splits)
  from z show "fetch_count c' = 0" "fetch_limit c' = 0" "fetch_count c' \<le> fetch_limit c'"
    by simp_all
next
  fix c' w'
  assume "close c w = Some (c', w')"
  from close_frame [OF this] show "fetch_count c' = fetch_count c" "fetch_limit c' = fetch_limit c"
    by simp_all
next
  fix rc c' w'
  assume f: "fetch n c w = Some (rc, c', w')" and le: "fetch_count c \<le> fetch_limit c"
    and nw: "unat (fetch_limit c) + unat n < 2 ^ 64"
  have lim: "unat (fetch_limit c + n) = unat (fetch_limit c) + unat n"
    using nw by (simp add: unat_add_lem [THEN iffD1])
  have le': "unat (fetch_count c) \<le> unat (fetch_limit c + n)"
    using le lim by (simp add: word_le_nat_alt)
  note fcs = fetch_counters [OF f]
  have fc: "fetch_limit c' = fetch_limit c + n" "unat (fetch_count c) \<le> unat (fetch_count c')"
    "unat (fetch_count c') \<le> unat (fetch_limit c')"
    "delivered c' w' = delivered c w + (unat (fetch_count c') - unat (fetch_count c))"
    using fcs le' by auto
  show "fetch_count c' \<le> fetch_limit c'"
    using fc(3) by (simp add: word_le_nat_alt)
  show "unat (fetch_limit c') = unat (fetch_limit c) + unat n"
    using fc(1) lim by simp
  show "fetch_count c \<le> fetch_count c'"
    using fc(2) by (simp add: word_le_nat_alt)
  show "unat (fetch_count c') = unat (fetch_count c) + (delivered c' w' - delivered c w)"
    using fc(2,4) by simp
qed

lemma fetch_limit_not_above:
  assumes "scan_rest c w = Some xs" and "sink_of c w = Some s"
    and "\<not> fetch_count c < fetch_limit c + n"
  shows "fetch n c w =
     Some (False, c\<lparr>fetch_limit := fetch_limit c + n\<rparr>,
           with_sink c (sink_send_eof (server_status (thd w) OR SERVER_STATUS_CURSOR_EXISTS))
             (set_server_status SERVER_STATUS_CURSOR_EXISTS (with_sink c sink_begin_dataset w)))"
proof -
  let ?c0 = "c\<lparr>fetch_limit := fetch_limit c + n\<rparr>"
  let ?w0 = "with_sink c sink_begin_dataset w"
  have "\<not> fetch_count ?c0 < fetch_limit ?c0"
    using assms(3) by simp
  then have loop: "fetch_loop ?c0 ?w0 = Some (Loop_done 0, ?c0, ?w0)"
    by (rule fetch_loop_limit)
  have s1: "sink_of ?c0 (set_server_status SERVER_STATUS_CURSOR_EXISTS ?w0) =
      Some (sink_begin_dataset s)"
    using assms(2) by simp
  show ?thesis
    by (simp add: fetch_start [OF assms(1,2)] loop result_send_eof_eq [OF s1])
qed

lemma example_wrapping_fetches:
  "fetch_seq [1, - 1] example_cursor (example_state rows2 0 [] [] [] 0) =
     Some (False, example_cursor\<lparr>fetch_limit := 0, fetch_count := 1\<rparr>,
           example_state rows2 1 [1] []
             [Ev_begin_dataset, Ev_send_data [1], Ev_send_eof 64, Ev_begin_dataset, Ev_send_eof 64]
             64)"
proof -
  let ?c1 = "example_cursor\<lparr>fetch_limit := 1, fetch_count := 1\<rparr>"
  let ?w1 = "example_state rows2 1 [1] [] [Ev_begin_dataset, Ev_send_data [1], Ev_send_eof 64] 64"
  have r: "scan_rest example_cursor (example_state rows2 0 [] [] [] 0) =
      Some (map Row [[1]] @ [Row [2]])"
    by (simp add: example_obs rows2_def)
  have ok: "True \<notin> set (take (length [[1::int]])
      (send_data_script \<lparr>prepare_status = False, send_data_script = [], events = []\<rparr>))"
    by simp
  have eq: "length [[1::int]] + unat (fetch_count example_cursor) =
      unat (fetch_limit example_cursor + 1)"
    by (simp add: example_cursor_def)
  have f1: "fetch 1 example_cursor (example_state rows2 0 [] [] [] 0) = Some (False, ?c1, ?w1)"
    unfolding fetch_batch_satisfied [OF r example_obs(2) ok eq]
    by (simp add: example_cursor_def example_state_def example_thd_def with_sink_def
         with_table_def deliver_def set_server_status_def read_rows_def sent_rows_def
         sink_begin_dataset_def sink_send_eof_def new_handler_def
         SERVER_STATUS_CURSOR_EXISTS_def)
  have r1: "scan_rest ?c1 ?w1 = Some [Row [2]]"
    by (simp add: example_obs rows2_def)
  have s1: "sink_of ?c1 ?w1 = Some \<lparr>prepare_status = False, send_data_script = [],
      events = [Ev_begin_dataset, Ev_send_data [1], Ev_send_eof 64]\<rparr>"
    by (simp add: example_obs)
  have no: "\<not> fetch_count ?c1 < fetch_limit ?c1 + (- 1)"
    by simp
  have f2: "fetch (- 1) ?c1 ?w1 =
     Some (False, example_cursor\<lparr>fetch_limit := 0, fetch_count := 1\<rparr>,
           example_state rows2 1 [1] []
             [Ev_begin_dataset, Ev_send_data [1], Ev_send_eof 64, Ev_begin_dataset, Ev_send_eof 64]
             64)"
    unfolding fetch_limit_not_above [OF r1 s1 no]
    by (simp add: example_cursor_def example_state_def example_thd_def with_sink_def
         set_server_status_def sink_begin_dataset_def sink_send_eof_def
         SERVER_STATUS_CURSOR_EXISTS_def)
  show ?thesis
    by (simp only: fetch_seq.simps f1 f2 option.case prod.case if_False)
qed

text \<open>
  C6 as stated fails. On a table of two rows, \<open>fetch(1)\<close> leaves both counters at 1; a
  following \<open>fetch(2^64 - 1)\<close> wraps \<open>fetch_limit\<close> around to 0, so that it has not
  grown by the requested count and \<open>fetch_count\<close> is above it.
\<close>

theorem counters_invariant_counterexample:
  "fetch_seq [1, - 1] example_cursor (example_state rows2 0 [] [] [] 0) =
     Some (False, example_cursor\<lparr>fetch_limit := 0, fetch_count := 1\<rparr>,
           example_state rows2 1 [1] []
             [Ev_begin_dataset, Ev_send_data [1], Ev_send_eof 64, Ev_begin_dataset, Ev_send_eof 64]
             64) \<and>
   fetch_limit (example_cursor\<lparr>fetch_limit := 0, fetch_count := 1\<rparr>) <
     fetch_count (example_cursor\<lparr>fetch_limit := 0, fetch_count := 1\<rparr>) \<and>
   \<not> fetch_count (example_cursor\<lparr>fetch_limit := 0, fetch_count := 1\<rparr>) \<le>
     fetch_limit (example_cursor\<lparr>fetch_limit := 0, fetch_count := 1\<rparr>) \<and>
   unat (- 1 :: ulong) = 18446744073709551615"
proof -
  have "unat (- 1 :: ulong) = 18446744073709551615"
    by (simp add: unsigned_minus_1_eq_mask mask_eq_exp_minus_1)
  with example_wrapping_fetches show ?thesis
    by simp
qed

theorem counters_invariant_witness:
  "(\<exists>c' w'. cursor_open example_bound_cursor (example_bound_state 1 False) = Some (True, c', w') \<and>
      fetch_count c' = 0 \<and> fetch_limit c' = 0) \<and>
   (\<exists>c' w'. close (example_cursor\<lparr>fetch_limit := 2, fetch_count := 2\<rparr>)
        (example_state rows3 2 [2] [] [] 64) = Some (c', w') \<and>
      fetch_count c' = 2 \<and> fetch_limit c' = 2) \<and>
   (\<exists>c' w'. fetch 2 example_cursor (example_state rows3 0 [] [] [] 0) = Some (False, c', w') \<and>
      fetch_count example_cursor \<le> fetch_limit example_cursor \<and>
      unat (fetch_limit example_cursor) + unat (2 :: ulong) < 2 ^ 64 \<and>
      fetch_count c' \<le> fetch_limit c' \<and> unat (fetch_limit c') = 2 \<and> unat (fetch_count c') = 2 \<and>
      delivered c' w' - delivered example_cursor (example_state rows3 0 [] [] [] 0) = 2)"
proof -
  let ?w0 = "example_state rows3 0 [] [] [] 0"
  let ?c2 = "example_cursor\<lparr>fetch_limit := 2, fetch_count := 2\<rparr>"
  let ?w2 = "example_state rows3 2 [2] [] [] 64"
  from example_open_scan_init_fails obtain co wo where
    o: "cursor_open example_bound_cursor (example_bound_state 1 False) = Some (True, co, wo)"
    by blast
  note inv_open = counters_invariant [of example_bound_cursor "example_bound_state 1 False" 0,
      THEN conjunct1, rule_format, OF o]
  have "scan_rest ?c2 ?w2 = Some [Row [3]]"
    by (simp add: example_obs rows3_def)
  from close_eq [OF this] obtain cc wc where cl: "close ?c2 ?w2 = Some (cc, wc)"
    by blast
  note inv_close = counters_invariant [of ?c2 ?w2 0, THEN conjunct2, THEN conjunct1,
      rule_format, OF cl]
  from example_first_fetch obtain cf wf where
    f: "fetch 2 example_cursor ?w0 = Some (False, cf, wf)"
    by blast
  have le: "fetch_count example_cursor \<le> fetch_limit example_cursor"
    and nw: "unat (fetch_limit example_cursor) + unat (2 :: ulong) < 2 ^ 64"
    and z: "unat (fetch_limit example_cursor) = 0" "unat (fetch_count example_cursor) = 0"
    by (simp_all add: example_cursor_def)
  note inv_fetch = counters_invariant [of example_cursor ?w0 2, THEN conjunct2, THEN conjunct2,
      rule_format, OF f le nw]
  have c2: "fetch_count ?c2 = 2" "fetch_limit ?c2 = 2"
    by simp_all
  from o inv_open have A: "\<exists>c' w'. cursor_open example_bound_cursor (example_bound_state 1 False) =
      Some (True, c', w') \<and> fetch_count c' = 0 \<and> fetch_limit c' = 0"
    by blast
  from cl inv_close c2 have B: "\<exists>c' w'. close ?c2 ?w2 = Some (c', w') \<and>
      fetch_count c' = 2 \<and> fetch_limit c' = 2"
    by auto
  from f inv_fetch le nw z have C: "\<exists>c' w'. fetch 2 example_cursor ?w0 = Some (False, c', w') \<and>
      fetch_count example_cursor \<le> fetch_limit example_cursor \<and>
      unat (fetch_limit example_cursor) + unat (2 :: ulong) < 2 ^ 64 \<and>
      fetch_count c' \<le> fetch_limit c' \<and> unat (fetch_limit c') = 2 \<and> unat (fetch_count c') = 2 \<and>
      delivered c' w' - delivered example_cursor ?w0 = 2"
  proof -
    have "unat (fetch_limit cf) = 2"
      using inv_fetch z by simp
    moreover have "unat (fetch_count cf) = 2"
      using example_first_fetch f by simp
    moreover have "delivered cf wf - delivered example_cursor ?w0 = 2"
      using inv_fetch z calculation by simp
    ultimately show ?thesis
      using f inv_fetch le nw by blast
  qed
  from A B C show ?thesis
    by blast
qed

subsection \<open>Starting the execution more than once\<close>

lemma start_execution_created:
  "qr_table m = Some tp \<Longrightarrow> tables w tp = Some t \<Longrightarrow> is_created t \<Longrightarrow>
   start_execution m w = Some (False, w)"
  by (simp add: start_execution_def)

lemma start_execution_success:
  assumes "qr_table m = Some tp" and "tables w tp = Some t"
    and "start_execution m w = Some (False, w1)"
  shows "\<exists>t1. tables w1 tp = Some t1 \<and> is_created t1 \<and>
     instantiations t1 = (if is_created t then instantiations t else Suc (instantiations t)) \<and>
     (is_created t \<longrightarrow> w1 = w)"
  using assms
  by (auto simp: start_execution_def Let_def instantiate_tmp_table_def is_created_def
      split: option.splits if_splits prod.splits)

lemma start_execution_seq_created:
  "qr_table m = Some tp \<Longrightarrow> tables w tp = Some t \<Longrightarrow> is_created t \<Longrightarrow>
   start_execution_seq k m w = Some (False, w)"
  by (induction k) (simp_all add: start_execution_created)

text \<open>
  C8. When the table is already created, \<open>start_execution\<close> returns success and changes
  nothing. After a call that returned success, any number of further calls return
  success and leave the state as it is, so that the storage has been instantiated once by
  the first call (or not at all by these calls, when it existed before).
\<close>

theorem start_execution_idempotent:
  assumes "qr_table m = Some tp" and "tables w tp = Some t"
  shows "(is_created t \<longrightarrow> start_execution m w = Some (False, w)) \<and>
     (start_execution m w = Some (False, w1) \<longrightarrow>
        start_execution_seq k m w1 = Some (False, w1) \<and>
        (\<exists>t1. tables w1 tp = Some t1 \<and> is_created t1 \<and>
           instantiations t1 =
             (if is_created t then instantiations t else Suc (instantiations t))))"
proof (intro conjI impI)
  assume "is_created t"
  with assms show "start_execution m w = Some (False, w)"
    by (simp add: start_execution_created)
next
  assume s: "start_execution m w = Some (False, w1)"
  from start_execution_success [OF assms s] obtain t1 where
    t1: "tables w1 tp = Some t1" "is_created t1"
      "instantiations t1 = (if is_created t then instantiations t else Suc (instantiations t))"
    by blast
  from start_execution_seq_created [OF assms(1) t1(1,2)]
  show "start_execution_seq k m w1 = Some (False, w1)" .
  from t1 show "\<exists>t1. tables w1 tp = Some t1 \<and> is_created t1 \<and>
      instantiations t1 = (if is_created t then instantiations t else Suc (instantiations t))"
    by blast
qed

lemma example_start_execution:
  "\<exists>w1. start_execution example_mediator example_prepared_state = Some (False, w1)"
  by (simp add: start_execution_def example_mediator_def example_prepared_state_def
      is_created_def instantiate_tmp_table_def Let_def)

theorem start_execution_idempotent_witness:
  "qr_table example_mediator = Some 2 \<and>
   \<not> is_created \<lparr>file_h = None, record0 = [], created = False, hash_field = True,
         instantiate_status = False, storage = rows3, instantiations = 0\<rparr> \<and>
   (\<exists>w1 t1. start_execution example_mediator example_prepared_state = Some (False, w1) \<and>
      start_execution_seq 3 example_mediator w1 = Some (False, w1) \<and>
      tables w1 2 = Some t1 \<and> is_created t1 \<and> instantiations t1 = 1 \<and>
      start_execution example_mediator w1 = Some (False, w1))"
proof -
  let ?t = "\<lparr>file_h = None, record0 = [], created = False, hash_field = True,
         instantiate_status = False, storage = rows3, instantiations = 0\<rparr>"
  have h1: "qr_table example_mediator = Some 2"
    by (simp add: example_mediator_def)
  have h2: "tables example_prepared_state 2 = Some ?t"
    by (simp add: example_prepared_state_def)
  have nc: "\<not> is_created ?t"
    by (simp add: is_created_def)
  from example_start_execution obtain w1 where
    s: "start_execution example_mediator example_prepared_state = Some (False, w1)"
    by blast
  from start_execution_idempotent [OF h1 h2, of w1 3, THEN conjunct2, rule_format, OF s] nc
  obtain t1 where t1: "tables w1 2 = Some t1" "is_created t1" "instantiations t1 = 1"
    and q: "start_execution_seq 3 example_mediator w1 = Some (False, w1)"
    by auto
  from start_execution_idempotent [OF h1 t1(1), of w1 0, THEN conjunct1, rule_format, OF t1(2)]
  have "start_execution example_mediator w1 = Some (False, w1)" .
  with s q t1 h1 nc show ?thesis
    by blast
qed

subsection \<open>Opening a cursor for a statement\<close>

lemma cursor_open_instrumentation:
  "cursor_open c w = Some (rc, c', w') \<Longrightarrow>
   m_digest (thd w') = m_digest (thd w) \<and> m_statement_psi (thd w') = m_statement_psi (thd w)"
  by (auto simp: cursor_open_def Let_def swap_query_arena_def result_prepare_def
      table_ha_rnd_init_def result_send_eof_def result_abort_result_set_def
      set_server_status_def split: prod.splits option.splits if_splits)

lemma delete_Materialized_cursor_thd:
  "delete_Materialized_cursor cp w = Some w' \<Longrightarrow> thd w' = thd w"
  by (auto simp: delete_Materialized_cursor_def split: option.splits)

lemma execute_and_open_instrumentation:
  assumes "execute_and_open exec pcursor rm w = Some (rc, pc', w')"
  shows "m_digest (thd w') = m_digest (thd w) \<and> m_statement_psi (thd w') = m_statement_psi (thd w)"
proof -
  obtain erc w3 where e: "exec (set_instrumentation None None (set_lex_result rm w)) = (erc, w3)"
    by (cases "exec (set_instrumentation None None (set_lex_result rm w))")
  from assms show ?thesis
    unfolding execute_and_open_def Let_def e prod.case
    by (auto simp: set_instrumentation_def set_lex_result_def
        dest!: delete_Materialized_cursor_thd cursor_open_instrumentation
        split: option.splits if_splits)
qed

lemma thd_frames:
  "new_Query_result_materialize r w = (a, w1) \<Longrightarrow> thd w1 = thd w"
  "set_result b r w = Some w2 \<Longrightarrow> thd w2 = thd w"
  "m_digest (thd (set_sql_cmd cmd w)) = m_digest (thd w)"
  "m_statement_psi (thd (set_sql_cmd cmd w)) = m_statement_psi (thd w)"
  "m_digest (thd (my_error e w)) = m_digest (thd w)"
  "m_statement_psi (thd (my_error e w)) = m_statement_psi (thd w)"
  by (auto simp: new_Query_result_materialize_def set_result_def set_sql_cmd_def my_error_def
      Let_def split: if_splits option.splits)

text \<open>
  C9. Whenever \<open>mysql_open_cursor\<close> returns, with success or with failure and whatever
  the execution engine did to them, the digest and the statement locker of the session
  are the ones it had on entry.
\<close>

theorem mysql_open_cursor_restores_instrumentation:
  assumes "mysql_open_cursor exec result_arg pcursor w = Some (rc, pc', w')"
  shows "m_digest (thd w') = m_digest (thd w) \<and> m_statement_psi (thd w') = m_statement_psi (thd w)"
  using assms
  by (auto simp: mysql_open_cursor_def thd_frames
      dest!: execute_and_open_instrumentation dest: thd_frames(1,2)
      split: option.splits if_splits prod.splits)


lemmas example_defs =
  example_statement_state_def example_bound_state_def example_thd_def example_select_def
  example_show_def example_set_def example_bound_cursor_def new_handler_def

lemma example_entry_instrumentation:
  "m_digest (thd (example_statement_state cmd)) = Some 7"
  "m_statement_psi (thd (example_statement_state cmd)) = Some 8"
  by (simp_all add: example_defs)

lemma example_open_cursor_exec_fails:
  "\<exists>w'. mysql_open_cursor example_exec_fails (Some 1) None (example_statement_state example_select)
      = Some (True, None, w')"
  by (simp add: mysql_open_cursor_def execute_and_open_def new_Query_result_materialize_def
      set_lex_result_def set_instrumentation_def example_exec_fails_def example_defs Let_def)

lemma example_open_cursor_materializes:
  "\<exists>w'. mysql_open_cursor example_exec_materializes (Some 1) None
      (example_statement_state example_select) = Some (False, Some 4, w')"
  by (simp add: mysql_open_cursor_def execute_and_open_def new_Query_result_materialize_def
      set_lex_result_def set_instrumentation_def example_exec_materializes_def example_defs Let_def
      cursor_open_def swap_query_arena_def result_prepare_def sink_prepare_def
      table_ha_rnd_init_def ha_rnd_init_def result_send_eof_def sink_send_eof_def
      set_server_status_def)

theorem mysql_open_cursor_restores_instrumentation_witness:
  "(\<exists>w'. mysql_open_cursor example_exec_fails (Some 1) None
        (example_statement_state example_select) = Some (True, None, w') \<and>
      m_digest (thd w') = Some 7 \<and> m_statement_psi (thd w') = Some 8) \<and>
   (\<exists>w'. mysql_open_cursor example_exec_materializes (Some 1) None
        (example_statement_state example_select) = Some (False, Some 4, w') \<and>
      m_digest (thd w') = Some 7 \<and> m_statement_psi (thd w') = Some 8)"
proof -
  from example_open_cursor_exec_fails obtain w1 where
    f: "mysql_open_cursor example_exec_fails (Some 1) None
          (example_statement_state example_select) = Some (True, None, w1)"
    by blast
  from example_open_cursor_materializes obtain w2 where
    g: "mysql_open_cursor example_exec_materializes (Some 1) None
          (example_statement_state example_select) = Some (False, Some 4, w2)"
    by blast
  from mysql_open_cursor_restores_instrumentation [OF f]
    mysql_open_cursor_restores_instrumentation [OF g] f g
  show ?thesis
    by (simp add: example_entry_instrumentation)
qed

lemma mysql_open_cursor_not_dml:
  assumes "m_sql_cmd (thd_lex (thd w)) = None \<or>
      (\<exists>cmd. m_sql_cmd (thd_lex (thd w)) = Some cmd \<and> \<not> is_dml cmd)"
  shows "mysql_open_cursor exec result_arg pcursor w =
      Some (True, pcursor, my_error (ER_WRONG_ARGUMENTS ''with cursor'') w)"
  using assms by (auto simp: mysql_open_cursor_def)

lemma mysql_open_cursor_not_eligible:
  assumes "m_sql_cmd (thd_lex (thd w)) = Some cmd" and "is_dml cmd"
    and "\<not> may_use_cursor cmd \<or> is_regular cmd"
    and "exec (set_instrumentation None None (set_lex_result None w)) = (False, w3)"
  shows "mysql_open_cursor exec result_arg pcursor w =
      Some (False, pcursor, set_instrumentation (m_digest (thd w)) (m_statement_psi (thd w)) w3)"
  using assms
  by (auto simp: mysql_open_cursor_def execute_and_open_def Let_def set_lex_result_def)

text \<open>
  When the execution of a statement that got no mediator fails, the source reads
  \<open>result_materialize->materialized_cursor\<close> through the null pointer.
\<close>

lemma mysql_open_cursor_not_eligible_failure:
  assumes "m_sql_cmd (thd_lex (thd w)) = Some cmd" and "is_dml cmd"
    and "\<not> may_use_cursor cmd \<or> is_regular cmd"
    and "exec (set_instrumentation None None (set_lex_result None w)) = (True, w3)"
  shows "mysql_open_cursor exec result_arg pcursor w = None"
  using assms
  by (auto simp: mysql_open_cursor_def execute_and_open_def Let_def set_lex_result_def)

text \<open>
  C2, as the code has it. A statement that is not a data-manipulation statement gets the
  invalid-usage error and an immediate failure, and nothing else changes. For a
  data-manipulation statement that may not use a cursor, or is a regular statement,
  \<open>mysql_open_cursor\<close> raises no error and creates no mediator: it clears
  \<open>lex->result\<close> and runs the statement; when the execution succeeds it returns success
  without a cursor, in the state the engine left, with the instrumentation put back.
\<close>

theorem mysql_open_cursor_ineligible:
  "(m_sql_cmd (thd_lex (thd w)) = None \<or>
      (\<exists>cmd. m_sql_cmd (thd_lex (thd w)) = Some cmd \<and> \<not> is_dml cmd) \<longrightarrow>
    mysql_open_cursor exec result_arg pcursor w =
      Some (True, pcursor, my_error (ER_WRONG_ARGUMENTS ''with cursor'') w)) \<and>
   (m_sql_cmd (thd_lex (thd w)) = Some cmd \<and> is_dml cmd \<and>
      (\<not> may_use_cursor cmd \<or> is_regular cmd) \<and>
      exec (set_instrumentation None None (set_lex_result None w)) = (False, w3) \<longrightarrow>
    mysql_open_cursor exec result_arg pcursor w =
      Some (False, pcursor,
            set_instrumentation (m_digest (thd w)) (m_statement_psi (thd w)) w3))"
  by (auto simp: mysql_open_cursor_not_dml mysql_open_cursor_not_eligible)

lemma example_exec_direct_run:
  "example_exec_direct
     (set_instrumentation None None (set_lex_result None (example_statement_state example_show))) =
   (False, (example_statement_state example_show)
       \<lparr>thd := (thd (example_statement_state example_show))
          \<lparr>net := [[1]], m_digest := Some 99, m_statement_psi := Some 98\<rparr>\<rparr>)"
  by (simp add: example_exec_direct_def set_instrumentation_def set_lex_result_def example_defs)

theorem mysql_open_cursor_ineligible_witness:
  "m_sql_cmd (thd_lex (thd (example_statement_state example_set))) = Some example_set \<and>
   \<not> is_dml example_set \<and>
   mysql_open_cursor example_exec_direct (Some 1) None (example_statement_state example_set) =
     Some (True, None,
           my_error (ER_WRONG_ARGUMENTS ''with cursor'') (example_statement_state example_set)) \<and>
   m_sql_cmd (thd_lex (thd (example_statement_state example_show))) = Some example_show \<and>
   is_dml example_show \<and> \<not> may_use_cursor example_show \<and>
   mysql_open_cursor example_exec_direct (Some 1) None (example_statement_state example_show) =
     Some (False, None,
           (example_statement_state example_show)
             \<lparr>thd := (thd (example_statement_state example_show))\<lparr>net := [[1]]\<rparr>\<rparr>)"
proof -
  have a1: "m_sql_cmd (thd_lex (thd (example_statement_state example_set))) = Some example_set"
    and a2: "\<not> is_dml example_set"
    by (simp_all add: example_defs)
  then have a: "m_sql_cmd (thd_lex (thd (example_statement_state example_set))) = None \<or>
      (\<exists>cmd. m_sql_cmd (thd_lex (thd (example_statement_state example_set))) = Some cmd \<and>
         \<not> is_dml cmd)"
    by blast
  have b1: "m_sql_cmd (thd_lex (thd (example_statement_state example_show))) = Some example_show"
    and b2: "is_dml example_show" and b3: "\<not> may_use_cursor example_show"
    by (simp_all add: example_defs)
  have b4: "example_exec_direct
     (set_instrumentation None None (set_lex_result None (example_statement_state example_show))) =
     (False, (example_statement_state example_show)
       \<lparr>thd := (thd (example_statement_state example_show))
          \<lparr>net := [[1]], m_digest := Some 99, m_statement_psi := Some 98\<rparr>\<rparr>)"
    by (rule example_exec_direct_run)
  note t1 = mysql_open_cursor_ineligible [of "example_statement_state example_set"
      example_exec_direct "Some 1" None, THEN conjunct1, rule_format, OF a]
  have b: "m_sql_cmd (thd_lex (thd (example_statement_state example_show))) = Some example_show \<and>
      is_dml example_show \<and> (\<not> may_use_cursor example_show \<or> is_regular example_show) \<and>
      example_exec_direct (set_instrumentation None None
        (set_lex_result None (example_statement_state example_show))) =
      (False, (example_statement_state example_show)
         \<lparr>thd := (thd (example_statement_state example_show))
            \<lparr>net := [[1]], m_digest := Some 99, m_statement_psi := Some 98\<rparr>\<rparr>)"
    using b1 b2 b3 b4 by blast
  note t2 = mysql_open_cursor_ineligible [of "example_statement_state example_show"
      example_exec_direct "Some 1" None example_show _, THEN conjunct2, rule_format, OF b]
  have fin: "set_instrumentation (m_digest (thd (example_statement_state example_show)))
       (m_statement_psi (thd (example_statement_state example_show)))
       ((example_statement_state example_show)
         \<lparr>thd := (thd (example_statement_state example_show))
            \<lparr>net := [[1]], m_digest := Some 99, m_statement_psi := Some 98\<rparr>\<rparr>) =
     (example_statement_state example_show)
       \<lparr>thd := (thd (example_statement_state example_show))\<lparr>net := [[1]]\<rparr>\<rparr>"
    by (simp add: set_instrumentation_def example_defs)
  from t1 t2 a1 a2 b1 b2 b3 show ?thesis
    by (simp only: fin simp_thms)
qed

text \<open>
  C2 as stated fails. For a prepared data-manipulation statement that may not use a
  cursor, \<open>mysql_open_cursor\<close> runs the statement, which writes its row to the
  connection, records no error and returns success.
\<close>

theorem mysql_open_cursor_ineligible_counterexample:
  "is_dml example_show \<and> \<not> may_use_cursor example_show \<and>
   mysql_open_cursor example_exec_direct (Some 1) None (example_statement_state example_show) =
     Some (False, None,
           (example_statement_state example_show)
             \<lparr>thd := (thd (example_statement_state example_show))\<lparr>net := [[1]]\<rparr>\<rparr>) \<and>
   da_errors (thd ((example_statement_state example_show)
             \<lparr>thd := (thd (example_statement_state example_show))\<lparr>net := [[1]]\<rparr>\<rparr>)) = [] \<and>
   net (thd (example_statement_state example_show)) = []"
  by (simp add: mysql_open_cursor_def execute_and_open_def Let_def set_lex_result_def
      set_instrumentation_def example_exec_direct_def example_defs)

end
